theory Spec2Isabelle
  imports Main "HOL-Library.Multiset"
begin

section \<open>The UDP log collector: record model\<close>

text \<open>
  The server of this repository reads nginx access-log records that arrive as UDP
  datagrams, hands each datagram to a fixed pool of worker goroutines, and in the worker
  decodes the JSON payload into a \<open>LogData\<close> and converts it into a \<open>NginxAccessLog\<close>.
  This first part embeds the conversion (\<open>processData\<close>, after the decoding), together
  with the library functions it calls on strings.

  Go strings are byte strings: \<open>string\<close> is \<open>char list\<close> with one \<open>char\<close> per byte,
  and \<open>length\<close> is Go's \<open>len\<close>. Go's \<open>int\<close> is taken at 64 bits.
\<close>

subsection \<open>Runtime panics\<close>

text \<open>
  The run-time faults the code can raise. \<open>Index_out_of_range i n\<close> is Go's
  "index out of range [i] with length n".
\<close>

datatype panic =
    Index_out_of_range nat nat
  | Send_on_closed_channel
  | Close_of_closed_channel
  | Makechan_size_out_of_range

text \<open>How a call of a function without results ends: it returns, or it panics with a value.\<close>

datatype 'v outcome = Returned | Panicked 'v

definition index :: "'a list \<Rightarrow> nat \<Rightarrow> panic + 'a" where
  "index xs i = (if i < length xs then Inr (xs ! i) else Inl (Index_out_of_range i (length xs)))"

subsection \<open>strings.Split with a one-byte separator\<close>

text \<open>
  \<open>strings.Split(s, sep)\<close> cuts \<open>s\<close> at every occurrence of \<open>sep\<close> and keeps the empty
  pieces; the empty string gives one empty piece. The only call of the source passes the
  one-byte separator \<open>" "\<close>, so the separator is a byte here.
\<close>

fun Split :: "string \<Rightarrow> char \<Rightarrow> string list" where
  "Split [] sep = [[]]"
| "Split (c # cs) sep =
     (if c = sep then [] # Split cs sep
      else (case Split cs sep of
              [] \<Rightarrow> [[c]]
            | p # ps \<Rightarrow> (c # p) # ps))"

text \<open>The inverse, \<open>strings.Join(pieces, sep)\<close>, used to state that no byte is lost.\<close>

fun Join :: "string list \<Rightarrow> char \<Rightarrow> string" where
  "Join [] sep = []"
| "Join [p] sep = p"
| "Join (p # q # ps) sep = p @ sep # Join (q # ps) sep"

subsection \<open>strings.TrimSpace\<close>

text \<open>
  \<open>strings.TrimSpace\<close> removes every leading and every trailing white-space rune, as
  \<open>unicode.IsSpace\<close> defines them: the six ASCII ones, U+0085, U+00A0, U+1680,
  U+2000 to U+200A, U+2028, U+2029, U+202F, U+205F and U+3000. On the bytes of the
  string a rune is white space exactly when its UTF-8 encoding is one of the sequences
  below (an invalid byte decodes to U+FFFD, which is not white space).
\<close>

definition asciiSpace :: "nat \<Rightarrow> bool" where
  "asciiSpace b = (b = 9 \<or> b = 10 \<or> b = 11 \<or> b = 12 \<or> b = 13 \<or> b = 32)"

text \<open>Number of bytes of the white-space rune that starts the byte list, 0 when none does.\<close>

fun space_prefix :: "nat list \<Rightarrow> nat" where
  "space_prefix [] = 0"
| "space_prefix [a] = (if asciiSpace a then 1 else 0)"
| "space_prefix [a, b] =
     (if asciiSpace a then 1
      else if a = 0xC2 \<and> (b = 0x85 \<or> b = 0xA0) then 2 else 0)"
| "space_prefix (a # b # c # _) =
     (if asciiSpace a then 1
      else if a = 0xC2 \<and> (b = 0x85 \<or> b = 0xA0) then 2
      else if a = 0xE1 \<and> b = 0x9A \<and> c = 0x80 then 3
      else if a = 0xE2 \<and> b = 0x80 \<and> ((0x80 \<le> c \<and> c \<le> 0x8A) \<or> c = 0xA8 \<or> c = 0xA9 \<or> c = 0xAF) then 3
      else if a = 0xE2 \<and> b = 0x81 \<and> c = 0x9F then 3
      else if a = 0xE3 \<and> b = 0x80 \<and> c = 0x80 then 3
      else 0)"

text \<open>
  The same for the rune that ends the string, on the reversed bytes: the last rune is
  found by walking back to the nearest byte that starts a rune, and the continuation
  bytes of the sequences above start none.
\<close>

fun space_suffix :: "nat list \<Rightarrow> nat" where
  "space_suffix [] = 0"
| "space_suffix [a] = (if asciiSpace a then 1 else 0)"
| "space_suffix [b, a] =
     (if asciiSpace b then 1
      else if a = 0xC2 \<and> (b = 0x85 \<or> b = 0xA0) then 2 else 0)"
| "space_suffix (c # b # a # _) =
     (if asciiSpace c then 1
      else if b = 0xC2 \<and> (c = 0x85 \<or> c = 0xA0) then 2
      else if a = 0xE1 \<and> b = 0x9A \<and> c = 0x80 then 3
      else if a = 0xE2 \<and> b = 0x80 \<and> ((0x80 \<le> c \<and> c \<le> 0x8A) \<or> c = 0xA8 \<or> c = 0xA9 \<or> c = 0xAF) then 3
      else if a = 0xE2 \<and> b = 0x81 \<and> c = 0x9F then 3
      else if a = 0xE3 \<and> b = 0x80 \<and> c = 0x80 then 3
      else 0)"

lemma space_prefix_le: "space_prefix bs \<le> length bs"
  by (induction bs rule: space_prefix.induct) auto

lemma space_suffix_le: "space_suffix bs \<le> length bs"
  by (induction bs rule: space_suffix.induct) auto

definition bytes_of :: "string \<Rightarrow> nat list" where
  "bytes_of s = map of_char s"

lemma length_bytes_of [simp]: "length (bytes_of s) = length s"
  by (simp add: bytes_of_def)

function TrimLeft :: "string \<Rightarrow> string" where
  "TrimLeft s =
     (if space_prefix (bytes_of s) = 0 then s
      else TrimLeft (drop (space_prefix (bytes_of s)) s))"
  by pat_completeness auto
termination
proof (relation "measure length")
  show "wf (measure length)" by simp
next
  fix s :: string
  assume "space_prefix (bytes_of s) \<noteq> 0"
  moreover have "space_prefix (bytes_of s) \<le> length s"
    using space_prefix_le [of "bytes_of s"] by simp
  ultimately show "(drop (space_prefix (bytes_of s)) s, s) \<in> measure length" by simp
qed

text \<open>\<open>TrimRev\<close> trims the end of a string that is given reversed.\<close>

function TrimRev :: "string \<Rightarrow> string" where
  "TrimRev s =
     (if space_suffix (bytes_of s) = 0 then s
      else TrimRev (drop (space_suffix (bytes_of s)) s))"
  by pat_completeness auto
termination
proof (relation "measure length")
  show "wf (measure length)" by simp
next
  fix s :: string
  assume "space_suffix (bytes_of s) \<noteq> 0"
  moreover have "space_suffix (bytes_of s) \<le> length s"
    using space_suffix_le [of "bytes_of s"] by simp
  ultimately show "(drop (space_suffix (bytes_of s)) s, s) \<in> measure length" by simp
qed

declare TrimLeft.simps [simp del] TrimRev.simps [simp del]

definition TrimSpace :: "string \<Rightarrow> string" where
  "TrimSpace s = rev (TrimRev (rev (TrimLeft s)))"

subsection \<open>strconv.Atoi\<close>

text \<open>
  \<open>strconv.Atoi(s)\<close> is \<open>ParseInt(s, 10, 0)\<close> converted to \<open>int\<close>: an optional sign, then
  \<open>ParseUint\<close> on the rest. \<open>ParseUint\<close> reads the bytes from the left; a byte that is
  no decimal digit ends it with a syntax error and the value 0, and a value that leaves
  64 bits ends it at once, before the remaining bytes are looked at, with a range error
  and the largest value. \<open>ParseInt\<close> turns a range error, and a magnitude beyond the
  signed range, into the bound of the sign, still with a range error. Both results are
  returned: the value and the error (\<open>None\<close> is Go's \<open>nil\<close>).
\<close>

datatype NumError = ErrSyntax | ErrRange

definition is_digit :: "char \<Rightarrow> bool" where
  "is_digit c = (48 \<le> (of_char c :: nat) \<and> (of_char c :: nat) \<le> 57)"

definition digit :: "char \<Rightarrow> nat" where
  "digit c = of_char c - 48"

text \<open>\<open>maxUint64\<close> is \<open>2^64 - 1\<close>, and \<open>cutoff64\<close> is \<open>maxUint64 / 10 + 1\<close>.\<close>

definition maxUint64 :: nat where
  "maxUint64 = 18446744073709551615"

definition cutoff64 :: nat where
  "cutoff64 = 1844674407370955162"

fun ParseUint_loop :: "nat \<Rightarrow> string \<Rightarrow> nat \<times> NumError option" where
  "ParseUint_loop n [] = (n, None)"
| "ParseUint_loop n (c # cs) =
     (if \<not> is_digit c then (0, Some ErrSyntax)
      else if cutoff64 \<le> n then (maxUint64, Some ErrRange)
      else if maxUint64 < n * 10 + digit c then (maxUint64, Some ErrRange)
      else ParseUint_loop (n * 10 + digit c) cs)"

definition ParseUint :: "string \<Rightarrow> nat \<times> NumError option" where
  "ParseUint s = (if s = [] then (0, Some ErrSyntax) else ParseUint_loop 0 s)"

definition ParseInt_signed :: "bool \<Rightarrow> string \<Rightarrow> int \<times> NumError option" where
  "ParseInt_signed neg s =
     (case ParseUint s of
        (un, err) \<Rightarrow>
          if err = Some ErrSyntax then (0, err)
          else if \<not> neg \<and> 9223372036854775808 \<le> un then (9223372036854775807, Some ErrRange)
          else if neg \<and> 9223372036854775808 < un then (- 9223372036854775808, Some ErrRange)
          else (if neg then - int un else int un, None))"

fun ParseInt :: "string \<Rightarrow> int \<times> NumError option" where
  "ParseInt [] = (0, Some ErrSyntax)"
| "ParseInt (c # cs) =
     (if c = CHR ''+'' then ParseInt_signed False cs
      else if c = CHR ''-'' then ParseInt_signed True cs
      else ParseInt_signed False (c # cs))"

definition Atoi :: "string \<Rightarrow> int \<times> NumError option" where
  "Atoi s = ParseInt s"

subsection \<open>Floating point and local time\<close>

text \<open>
  Floating-point arithmetic and the time-zone database of the process are not
  interpreted. A \<open>float64\<close> is the zero value, or the number that
  \<open>strconv.ParseFloat(s, 64)\<close> returns for a text (\<open>processData\<close> discards its
  error), or what a field holds after \<open>encoding/json\<close> has stored a number literal
  into it: \<open>Json_number lit old\<close> is \<open>ParseFloat(lit)\<close> when that is in range, and
  the former value \<open>old\<close> of the field when it is not. The text of the
  \<open>TimeIso8601\<close> field is kept as the call that renders it:
  \<open>Format_Unix d\<close> stands for \<open>time.Unix(int64(d), 0).Format("2006-01-02 15:04:05")\<close>.
\<close>

datatype float64 = Zero64 | ParseFloat string | Json_number string float64

datatype time_text = Format_Unix float64

subsection \<open>The two records\<close>

record LogData =
  Date :: float64
  RemoteAddr :: string
  RemoteUser :: string
  Request :: string
  Status :: string
  BodyBytesSent :: string
  HttpReferer :: string
  HttpUserAgent :: string
  RequestTime :: string
  UpstreamResponseTime :: string
  RequestLength :: string
  BytesSent :: string
  HttpXForwardedFor :: string
  HttpXRealIp :: string
  Scheme :: string
  HttpHost :: string
  ServerName :: string

text \<open>
  The fields of \<open>NginxAccessLog\<close> that share their name with a field of \<open>LogData\<close>
  carry a prime.
\<close>

record NginxAccessLog =
  TimeIso8601 :: time_text
  RemoteAddr' :: string
  RemoteUser' :: string
  Method :: string
  RequestUri :: string
  HttpVersion :: string
  Status' :: int
  BodyBytesSent' :: int
  HttpReferer' :: string
  HttpUserAgent' :: string
  RequestTime' :: float64
  UpstreamResponseTime' :: float64
  RequestLength' :: int
  BytesSent' :: int
  HttpXForwardedFor' :: string
  HttpXRealIp' :: string
  Scheme' :: string
  HttpHost' :: string
  ServerName' :: string

text \<open>The zero value \<open>LogData{}\<close>.\<close>

definition LogData_zero :: LogData where
  "LogData_zero =
     \<lparr>Date = Zero64, RemoteAddr = [], RemoteUser = [], Request = [], Status = [],
      BodyBytesSent = [], HttpReferer = [], HttpUserAgent = [], RequestTime = [],
      UpstreamResponseTime = [], RequestLength = [], BytesSent = [],
      HttpXForwardedFor = [], HttpXRealIp = [], Scheme = [], HttpHost = [],
      ServerName = []\<rparr>"

subsection \<open>From LogData to NginxAccessLog\<close>

text \<open>
  Lines 238 to 268 of \<open>processData\<close>: the numeric texts are parsed with their errors
  discarded, the request line is split at every space, and the struct literal reads
  \<open>url[0]\<close>, \<open>url[1]\<close> and \<open>url[2]\<close> in this order with no check of the length. An
  index beyond the slice is a run-time panic; it is the \<open>Inl\<close> result here.
\<close>

definition toNginxAccessLog :: "LogData \<Rightarrow> panic + NginxAccessLog" where
  "toNginxAccessLog logData =
     (let t = Format_Unix (Date logData);
          status = fst (Atoi (Status logData));
          bodyBytesSent = fst (Atoi (BodyBytesSent logData));
          requestTime = ParseFloat (RequestTime logData);
          upstreamResponseTime = ParseFloat (UpstreamResponseTime logData);
          requestLength = fst (Atoi (RequestLength logData));
          bytesSent = fst (Atoi (BytesSent logData));
          url = Split (Request logData) (CHR '' '')
      in case index url 0 of
           Inl p \<Rightarrow> Inl p
         | Inr u0 \<Rightarrow>
        (case index url 1 of
           Inl p \<Rightarrow> Inl p
         | Inr u1 \<Rightarrow>
        (case index url 2 of
           Inl p \<Rightarrow> Inl p
         | Inr u2 \<Rightarrow>
             Inr \<lparr>TimeIso8601 = t,
                  RemoteAddr' = RemoteAddr logData,
                  RemoteUser' = RemoteUser logData,
                  Method = u0,
                  RequestUri = u1,
                  HttpVersion = u2,
                  Status' = status,
                  BodyBytesSent' = bodyBytesSent,
                  HttpReferer' = HttpReferer logData,
                  HttpUserAgent' = HttpUserAgent logData,
                  RequestTime' = requestTime,
                  UpstreamResponseTime' = upstreamResponseTime,
                  RequestLength' = requestLength,
                  BytesSent' = bytesSent,
                  HttpXForwardedFor' = HttpXForwardedFor logData,
                  HttpXRealIp' = HttpXRealIp logData,
                  Scheme' = Scheme logData,
                  HttpHost' = HttpHost logData,
                  ServerName' = ServerName logData\<rparr>)))"

subsection \<open>Well-formed integer texts\<close>

text \<open>
  The specification speaks of well-formed text-encoded integers and of their values.
  These definitions follow its words, not the code: an optional sign, at least one
  decimal digit and nothing else, denoting a number that a 64-bit \<open>int\<close> holds.
\<close>

definition decimal :: "string \<Rightarrow> nat" where
  "decimal ds = foldl (\<lambda>n c. n * 10 + digit c) 0 ds"

fun unsigned_part :: "string \<Rightarrow> string" where
  "unsigned_part [] = []"
| "unsigned_part (c # cs) = (if c = CHR ''+'' \<or> c = CHR ''-'' then cs else c # cs)"

fun negative :: "string \<Rightarrow> bool" where
  "negative [] = False"
| "negative (c # cs) = (c = CHR ''-'')"

definition int_value :: "string \<Rightarrow> int" where
  "int_value s = (if negative s then - int (decimal (unsigned_part s)) else int (decimal (unsigned_part s)))"

definition int_text :: "string \<Rightarrow> bool" where
  "int_text s =
     (unsigned_part s \<noteq> [] \<and> list_all is_digit (unsigned_part s) \<and>
      - 9223372036854775808 \<le> int_value s \<and> int_value s \<le> 9223372036854775807)"


subsection \<open>White-space-separated tokens\<close>



section \<open>Decoding the payload\<close>

text \<open>
  \<open>processData\<close> calls \<open>json.Unmarshal([]byte(trimmedData), &logData)\<close> on the zero
  record and discards the error. \<open>Unmarshal\<close> first checks that the whole input is one
  JSON value with white space around it (\<open>checkValid\<close>) and changes nothing when it is
  not. Then, for an object, it goes through the members in order: a key selects the
  field whose \<open>json\<close> tag it equals, letter case ignored; a string goes into a string
  field and a number into the \<open>float64\<close> field; \<open>null\<close> and unknown keys are skipped;
  any other value for a known field is a type error, which leaves the field as it is,
  and the decoding goes on with the next member. A top-level value that is no object
  changes nothing.
\<close>

subsection \<open>Strings: escapes and UTF-8\<close>

definition is_hex :: "char \<Rightarrow> bool" where
  "is_hex c =
     (let b = (of_char c :: nat)
      in (48 \<le> b \<and> b \<le> 57) \<or> (65 \<le> b \<and> b \<le> 70) \<or> (97 \<le> b \<and> b \<le> 102))"

definition hex_val :: "char \<Rightarrow> nat" where
  "hex_val c =
     (let b = (of_char c :: nat)
      in if b \<le> 57 then b - 48 else if b \<le> 70 then b - 55 else b - 87)"

text \<open>\<open>getu4\<close>: the code unit of \<open>\uXXXX\<close> at the start of the text, if there is one.\<close>

fun getu4 :: "string \<Rightarrow> nat option" where
  "getu4 (b # u # h1 # h2 # h3 # h4 # _) =
     (if b = CHR 0x5C \<and> u = CHR ''u'' \<and> is_hex h1 \<and> is_hex h2 \<and> is_hex h3 \<and> is_hex h4
      then Some (hex_val h1 * 4096 + hex_val h2 * 256 + hex_val h3 * 16 + hex_val h4)
      else None)"
| "getu4 _ = None"

text \<open>\<open>utf8.EncodeRune\<close> for a rune that is no surrogate and at most U+10FFFF.\<close>

definition EncodeRune :: "nat \<Rightarrow> string" where
  "EncodeRune r =
     (if r < 0x80 then [char_of r]
      else if r < 0x800 then [char_of (0xC0 + r div 64), char_of (0x80 + r mod 64)]
      else if r < 0x10000 then
        [char_of (0xE0 + r div 4096), char_of (0x80 + (r div 64) mod 64), char_of (0x80 + r mod 64)]
      else
        [char_of (0xF0 + r div 262144), char_of (0x80 + (r div 4096) mod 64),
         char_of (0x80 + (r div 64) mod 64), char_of (0x80 + r mod 64)])"

text \<open>The encoding of U+FFFD, which replaces what is not UTF-8.\<close>

definition RuneError :: string where
  "RuneError = [CHR 0xEF, CHR 0xBF, CHR 0xBD]"

definition cont :: "nat \<Rightarrow> bool" where
  "cont b = (0x80 \<le> b \<and> b \<le> 0xBF)"

text \<open>
  \<open>utf8.DecodeRune\<close> on a first byte of 0x80 or more: the number of bytes of the rune
  that starts the list, and 0 when the bytes are not the encoding of a rune.
\<close>

fun rune_len :: "nat list \<Rightarrow> nat" where
  "rune_len (a # b # c # d # _) =
     (if 0xC2 \<le> a \<and> a \<le> 0xDF then (if cont b then 2 else 0)
      else if a = 0xE0 then (if 0xA0 \<le> b \<and> b \<le> 0xBF \<and> cont c then 3 else 0)
      else if a = 0xED then (if 0x80 \<le> b \<and> b \<le> 0x9F \<and> cont c then 3 else 0)
      else if 0xE1 \<le> a \<and> a \<le> 0xEF then (if cont b \<and> cont c then 3 else 0)
      else if a = 0xF0 then (if 0x90 \<le> b \<and> b \<le> 0xBF \<and> cont c \<and> cont d then 4 else 0)
      else if a = 0xF4 then (if 0x80 \<le> b \<and> b \<le> 0x8F \<and> cont c \<and> cont d then 4 else 0)
      else if 0xF1 \<le> a \<and> a \<le> 0xF3 then (if cont b \<and> cont c \<and> cont d then 4 else 0)
      else 0)"
| "rune_len [a, b, c] =
     (if 0xC2 \<le> a \<and> a \<le> 0xDF then (if cont b then 2 else 0)
      else if a = 0xE0 then (if 0xA0 \<le> b \<and> b \<le> 0xBF \<and> cont c then 3 else 0)
      else if a = 0xED then (if 0x80 \<le> b \<and> b \<le> 0x9F \<and> cont c then 3 else 0)
      else if 0xE1 \<le> a \<and> a \<le> 0xEF then (if cont b \<and> cont c then 3 else 0)
      else 0)"
| "rune_len [a, b] = (if 0xC2 \<le> a \<and> a \<le> 0xDF \<and> cont b then 2 else 0)"
| "rune_len _ = 0"

text \<open>
  \<open>unquoteBytes\<close> on the bytes between the quotes, together with the checks of the
  scanner on them: a quote, a control character, an escape other than
  \<open>\" \\ \/ \b \f \n \r \t \uXXXX\<close> make the input invalid (\<open>None\<close>). A surrogate
  escape followed by the escape of its second half is the rune of the pair, any other
  surrogate escape is U+FFFD, and so is every byte that starts no UTF-8 sequence.
\<close>

function unquote :: "string \<Rightarrow> string option" where
  "unquote [] = Some []"
| "unquote (c # cs) =
     (if c = CHR 0x22 \<or> (of_char c :: nat) < 0x20 then None
      else if c = CHR 0x5C then
        (case cs of
           [] \<Rightarrow> None
         | e # rest \<Rightarrow>
             if e = CHR 0x22 \<or> e = CHR 0x5C \<or> e = CHR ''/'' then map_option ((#) e) (unquote rest)
             else if e = CHR ''b'' then map_option ((#) (CHR 0x08)) (unquote rest)
             else if e = CHR ''f'' then map_option ((#) (CHR 0x0C)) (unquote rest)
             else if e = CHR ''n'' then map_option ((#) (CHR 0x0A)) (unquote rest)
             else if e = CHR ''r'' then map_option ((#) (CHR 0x0D)) (unquote rest)
             else if e = CHR ''t'' then map_option ((#) (CHR 0x09)) (unquote rest)
             else if e = CHR ''u'' then
               (case getu4 (c # cs) of
                  None \<Rightarrow> None
                | Some rr \<Rightarrow>
                    if 0xD800 \<le> rr \<and> rr < 0xE000 then
                      (case getu4 (drop 5 cs) of
                         None \<Rightarrow> map_option ((@) RuneError) (unquote (drop 5 cs))
                       | Some rr1 \<Rightarrow>
                           if rr < 0xDC00 \<and> 0xDC00 \<le> rr1 \<and> rr1 < 0xE000
                           then map_option ((@) (EncodeRune ((rr - 0xD800) * 1024 + (rr1 - 0xDC00) + 0x10000)))
                                  (unquote (drop 11 cs))
                           else map_option ((@) RuneError) (unquote (drop 5 cs)))
                    else map_option ((@) (EncodeRune rr)) (unquote (drop 5 cs)))
             else None)
      else if (of_char c :: nat) < 0x80 then map_option ((#) c) (unquote cs)
      else if rune_len (map of_char (c # cs)) = 0 then map_option ((@) RuneError) (unquote cs)
      else map_option ((@) (take (rune_len (map of_char (c # cs))) (c # cs)))
             (unquote (drop (rune_len (map of_char (c # cs)) - 1) cs)))"
  by pat_completeness auto
termination
  by (relation "measure length") auto

declare unquote.simps [simp del]

subsection \<open>The scanner\<close>

text \<open>
  The scanner reads the input byte by byte. It is given here as the tokens it
  recognises, a string token carrying its unquoted text and a number token its literal,
  followed by the check of the nesting.
\<close>

datatype token =
    LBrace | RBrace | LBracket | RBracket | Colon | Comma
  | TString string | TNumber string | TTrue | TFalse | TNull

datatype numstate = N_minus | N_zero | N_int | N_dot | N_frac | N_e | N_esign | N_exp

text \<open>
  Where the scanner is inside a token; the texts collected so far are kept reversed.
\<close>

datatype lexmode =
    Ready
  | In_string string
  | In_escape string
  | In_number numstate string
  | In_literal string token

definition is_space :: "char \<Rightarrow> bool" where
  "is_space c = (c = CHR '' '' \<or> c = CHR 0x09 \<or> c = CHR 0x0D \<or> c = CHR 0x0A)"

definition is_exp :: "char \<Rightarrow> bool" where
  "is_exp c = (c = CHR ''e'' \<or> c = CHR ''E'')"

text \<open>
  One more byte of a number: the next state, \<open>None\<close> when the byte cannot continue the
  number.
\<close>

definition num_step :: "numstate \<Rightarrow> char \<Rightarrow> numstate option" where
  "num_step st c =
     (case st of
        N_minus \<Rightarrow> if c = CHR ''0'' then Some N_zero else if is_digit c then Some N_int else None
      | N_zero \<Rightarrow> if c = CHR ''.'' then Some N_dot else if is_exp c then Some N_e else None
      | N_int \<Rightarrow> if is_digit c then Some N_int else if c = CHR ''.'' then Some N_dot
                 else if is_exp c then Some N_e else None
      | N_dot \<Rightarrow> if is_digit c then Some N_frac else None
      | N_frac \<Rightarrow> if is_digit c then Some N_frac else if is_exp c then Some N_e else None
      | N_e \<Rightarrow> if c = CHR ''+'' \<or> c = CHR ''-'' then Some N_esign
               else if is_digit c then Some N_exp else None
      | N_esign \<Rightarrow> if is_digit c then Some N_exp else None
      | N_exp \<Rightarrow> if is_digit c then Some N_exp else None)"

definition num_final :: "numstate \<Rightarrow> bool" where
  "num_final st = (st = N_zero \<or> st = N_int \<or> st = N_frac \<or> st = N_exp)"

text \<open>
  A byte outside a token: the token it is by itself, if any, and where the scanner is
  after it; \<open>None\<close> for a byte that can start nothing.
\<close>

definition start :: "char \<Rightarrow> (token option \<times> lexmode) option" where
  "start c =
     (if is_space c then Some (None, Ready)
      else if c = CHR ''{'' then Some (Some LBrace, Ready)
      else if c = CHR ''}'' then Some (Some RBrace, Ready)
      else if c = CHR ''['' then Some (Some LBracket, Ready)
      else if c = CHR '']'' then Some (Some RBracket, Ready)
      else if c = CHR '':'' then Some (Some Colon, Ready)
      else if c = CHR '','' then Some (Some Comma, Ready)
      else if c = CHR 0x22 then Some (None, In_string [])
      else if c = CHR ''-'' then Some (None, In_number N_minus [c])
      else if c = CHR ''0'' then Some (None, In_number N_zero [c])
      else if is_digit c then Some (None, In_number N_int [c])
      else if c = CHR ''t'' then Some (None, In_literal ''rue'' TTrue)
      else if c = CHR ''f'' then Some (None, In_literal ''alse'' TFalse)
      else if c = CHR ''n'' then Some (None, In_literal ''ull'' TNull)
      else None)"

definition emit :: "token option \<Rightarrow> token list option \<Rightarrow> token list option" where
  "emit t r = (case t of None \<Rightarrow> r | Some x \<Rightarrow> map_option ((#) x) r)"

text \<open>
  The byte that ends a number is no part of it: it is read again as a byte outside a
  token.
\<close>

fun lex :: "lexmode \<Rightarrow> string \<Rightarrow> token list option" where
  "lex Ready [] = Some []"
| "lex (In_number st acc) [] = (if num_final st then Some [TNumber (rev acc)] else None)"
| "lex _ [] = None"
| "lex Ready (c # cs) =
     (case start c of
        None \<Rightarrow> None
      | Some (t, m) \<Rightarrow> emit t (lex m cs))"
| "lex (In_string acc) (c # cs) =
     (if c = CHR 0x22 then
        (case unquote (rev acc) of
           None \<Rightarrow> None
         | Some s \<Rightarrow> map_option ((#) (TString s)) (lex Ready cs))
      else if c = CHR 0x5C then lex (In_escape (c # acc)) cs
      else lex (In_string (c # acc)) cs)"
| "lex (In_escape acc) (c # cs) = lex (In_string (c # acc)) cs"
| "lex (In_number st acc) (c # cs) =
     (case num_step st c of
        Some st' \<Rightarrow> lex (In_number st' (c # acc)) cs
      | None \<Rightarrow>
          if num_final st then
            (case start c of
               None \<Rightarrow> None
             | Some (t, m) \<Rightarrow> map_option ((#) (TNumber (rev acc))) (emit t (lex m cs)))
          else None)"
| "lex (In_literal [] t) (c # cs) = None"
| "lex (In_literal (x # xs) t) (c # cs) =
     (if c = x then (if xs = [] then map_option ((#) t) (lex Ready cs) else lex (In_literal xs t) cs)
      else None)"

text \<open>
  The nesting: what the scanner expects next, and the arrays and objects that are open.
  More than 10000 of them is an error (\<open>maxNestingDepth\<close>).
\<close>

datatype expect = Value | Value_or_close | Key_or_close | Key | Colon_after_key | After_value

datatype nesting = In_array | In_object

definition scalar :: "token \<Rightarrow> bool" where
  "scalar t = (case t of TString _ \<Rightarrow> True | TNumber _ \<Rightarrow> True | TTrue \<Rightarrow> True
                 | TFalse \<Rightarrow> True | TNull \<Rightarrow> True | _ \<Rightarrow> False)"

definition is_key :: "token \<Rightarrow> bool" where
  "is_key t = (case t of TString _ \<Rightarrow> True | _ \<Rightarrow> False)"

fun nested :: "expect \<Rightarrow> nesting list \<Rightarrow> token list \<Rightarrow> bool" where
  "nested e stk [] = (e = After_value \<and> stk = [])"
| "nested e stk (t # ts) =
     (case e of
        Value \<Rightarrow>
          if scalar t then nested After_value stk ts
          else if t = LBracket then length stk < 10000 \<and> nested Value_or_close (In_array # stk) ts
          else if t = LBrace then length stk < 10000 \<and> nested Key_or_close (In_object # stk) ts
          else False
      | Value_or_close \<Rightarrow>
          if t = RBracket then nested After_value (tl stk) ts
          else if scalar t then nested After_value stk ts
          else if t = LBracket then length stk < 10000 \<and> nested Value_or_close (In_array # stk) ts
          else if t = LBrace then length stk < 10000 \<and> nested Key_or_close (In_object # stk) ts
          else False
      | Key_or_close \<Rightarrow>
          if t = RBrace then nested After_value (tl stk) ts
          else if is_key t then nested Colon_after_key stk ts
          else False
      | Key \<Rightarrow> if is_key t then nested Colon_after_key stk ts else False
      | Colon_after_key \<Rightarrow> if t = Colon then nested Value stk ts else False
      | After_value \<Rightarrow>
          (case stk of
             [] \<Rightarrow> False
           | In_array # stk' \<Rightarrow>
               if t = Comma then nested Value stk ts
               else if t = RBracket then nested After_value stk' ts
               else False
           | In_object # stk' \<Rightarrow>
               if t = Comma then nested Key stk ts
               else if t = RBrace then nested After_value stk' ts
               else False))"

text \<open>\<open>checkValid\<close>: the tokens of a valid input, \<open>None\<close> for an invalid one.\<close>

definition checkValid :: "string \<Rightarrow> token list option" where
  "checkValid data =
     (case lex Ready data of
        None \<Rightarrow> None
      | Some ts \<Rightarrow> if nested Value [] ts then Some ts else None)"

subsection \<open>Storing the members into LogData\<close>

text \<open>
  A key selects the field whose name it equals under simple case folding. The names
  are lower-case ASCII letters and underscores, so a byte of the key matches a byte of
  the name when it is that byte or its upper-case letter; besides, the runes U+017F
  and U+212A match \<open>s\<close> and \<open>k\<close>.
\<close>

fun equalFold :: "string \<Rightarrow> string \<Rightarrow> bool" where
  "equalFold [] [] = True"
| "equalFold [] (k # ks) = False"
| "equalFold (n # ns) [] = False"
| "equalFold (n # ns) (k # ks) =
     (if k = n \<or> (97 \<le> (of_char n :: nat) \<and> (of_char n :: nat) \<le> 122 \<and>
                   (of_char k :: nat) + 32 = of_char n)
        then equalFold ns ks
      else if n = CHR ''s'' \<and> k = CHR 0xC5 \<and> take 1 ks = [CHR 0xBF] then equalFold ns (drop 1 ks)
      else if n = CHR ''k'' \<and> k = CHR 0xE2 \<and> take 2 ks = [CHR 0x84, CHR 0xAA]
        then equalFold ns (drop 2 ks)
      else False)"

definition store_string :: "token \<Rightarrow> string \<Rightarrow> string" where
  "store_string v old = (case v of TString s \<Rightarrow> s | _ \<Rightarrow> old)"

definition store_float :: "token \<Rightarrow> float64 \<Rightarrow> float64" where
  "store_float v old = (case v of TNumber lit \<Rightarrow> Json_number lit old | _ \<Rightarrow> old)"

definition store_member :: "string \<Rightarrow> token \<Rightarrow> LogData \<Rightarrow> LogData" where
  "store_member key v r =
     (if equalFold ''date'' key then r\<lparr>Date := store_float v (Date r)\<rparr>
      else if equalFold ''remote_addr'' key then r\<lparr>RemoteAddr := store_string v (RemoteAddr r)\<rparr>
      else if equalFold ''remote_user'' key then r\<lparr>RemoteUser := store_string v (RemoteUser r)\<rparr>
      else if equalFold ''request'' key then r\<lparr>Request := store_string v (Request r)\<rparr>
      else if equalFold ''status'' key then r\<lparr>Status := store_string v (Status r)\<rparr>
      else if equalFold ''body_bytes_sent'' key
        then r\<lparr>BodyBytesSent := store_string v (BodyBytesSent r)\<rparr>
      else if equalFold ''http_referer'' key then r\<lparr>HttpReferer := store_string v (HttpReferer r)\<rparr>
      else if equalFold ''http_user_agent'' key
        then r\<lparr>HttpUserAgent := store_string v (HttpUserAgent r)\<rparr>
      else if equalFold ''request_time'' key then r\<lparr>RequestTime := store_string v (RequestTime r)\<rparr>
      else if equalFold ''upstream_response_time'' key
        then r\<lparr>UpstreamResponseTime := store_string v (UpstreamResponseTime r)\<rparr>
      else if equalFold ''request_length'' key
        then r\<lparr>RequestLength := store_string v (RequestLength r)\<rparr>
      else if equalFold ''bytes_sent'' key then r\<lparr>BytesSent := store_string v (BytesSent r)\<rparr>
      else if equalFold ''http_x_forwarded_for'' key
        then r\<lparr>HttpXForwardedFor := store_string v (HttpXForwardedFor r)\<rparr>
      else if equalFold ''http_x_real_ip'' key then r\<lparr>HttpXRealIp := store_string v (HttpXRealIp r)\<rparr>
      else if equalFold ''scheme'' key then r\<lparr>Scheme := store_string v (Scheme r)\<rparr>
      else if equalFold ''http_host'' key then r\<lparr>HttpHost := store_string v (HttpHost r)\<rparr>
      else if equalFold ''server_name'' key then r\<lparr>ServerName := store_string v (ServerName r)\<rparr>
      else r)"

text \<open>
  The members of the top-level object, on the tokens after its brace. At depth 1 a
  string and the colon after it are a key; its value is stored when it is a single
  token, and walked over when it is an array or an object.
\<close>

fun members :: "nat \<Rightarrow> token list \<Rightarrow> LogData \<Rightarrow> LogData" where
  "members d [] r = r"
| "members d [t] r = r"
| "members d [t, u] r = r"
| "members d (t # u # v # ts) r =
     (if d = 1 then
        (case t of
           TString key \<Rightarrow>
             if v = LBrace \<or> v = LBracket then members 2 ts r
             else members 1 ts (store_member key v r)
         | RBrace \<Rightarrow> r
         | _ \<Rightarrow> members 1 (u # v # ts) r)
      else if t = LBrace \<or> t = LBracket then members (d + 1) (u # v # ts) r
      else if t = RBrace \<or> t = RBracket then members (d - 1) (u # v # ts) r
      else members d (u # v # ts) r)"

definition Unmarshal :: "string \<Rightarrow> LogData \<Rightarrow> LogData" where
  "Unmarshal data r =
     (case checkValid data of
        None \<Rightarrow> r
      | Some ts \<Rightarrow> (case ts of LBrace # ms \<Rightarrow> members 1 ms r | _ \<Rightarrow> r))"

subsection \<open>Sample records\<close>

text \<open>
  The record of the sample in the comment above \<open>LogData\<close> in the source, and records
  whose request line has four pieces, two pieces, and a status beyond 64 bits.
\<close>

definition LogData_sample :: LogData where
  "LogData_sample =
     \<lparr>Date = Json_number ''1751372240.0'' Zero64, RemoteAddr = ''172.28.0.1'',
      RemoteUser = ''-'', Request = ''GET /hyperfApi/demo/test HTTP/1.1'', Status = ''200'',
      BodyBytesSent = ''154'', HttpReferer = ''-'',
      HttpUserAgent = ''PostmanRuntime-ApipostRuntime/1.1.0'', RequestTime = ''0.071'',
      UpstreamResponseTime = ''0.071'', RequestLength = ''201'', BytesSent = ''553'',
      HttpXForwardedFor = ''-'', HttpXRealIp = ''-'', Scheme = ''http'',
      HttpHost = ''localhost'', ServerName = ''localhost''\<rparr>"

definition four_pieces :: LogData where
  "four_pieces = LogData_zero\<lparr>Request := ''GET /x HTTP/1.1 extra''\<rparr>"

definition two_pieces :: LogData where
  "two_pieces = LogData_zero\<lparr>Request := ''GET /x''\<rparr>"




section \<open>processData\<close>

text \<open>
  What \<open>processData\<close> does besides computing: the lines it prints with \<open>println\<close>
  (standard error) and \<open>fmt.Println\<close> (standard output), where \<open>Println_row\<close> is
  \<open>fmt.Println(nginxAccessLog)\<close> and \<open>Println_inserted\<close> the final message that the
  row was inserted. \<open>DB_Create\<close> is the call \<open>DB.Create(&nginxAccessLog)\<close> to the
  ClickHouse connection, the one way a row reaches the store; the source has it
  commented out, and no function of this theory produces it.
\<close>

datatype effect =
    Println_stderr string
  | Println_stdout string
  | Println_row NginxAccessLog
  | Println_inserted
  | DB_Create NginxAccessLog

fun sink_writes :: "effect list \<Rightarrow> NginxAccessLog list" where
  "sink_writes [] = []"
| "sink_writes (DB_Create row # os) = row # sink_writes os"
| "sink_writes (_ # os) = sink_writes os"

fun printed_rows :: "effect list \<Rightarrow> NginxAccessLog list" where
  "printed_rows [] = []"
| "printed_rows (Println_row row # os) = row # printed_rows os"
| "printed_rows (_ # os) = printed_rows os"

text \<open>A sender address, as the text that \<open>remoteAddr.String()\<close> gives.\<close>

type_synonym UDPAddr = string

definition plus_line :: string where
  "plus_line = ''+++++++++++++''"

text \<open>
  The result is what was printed and how the call ended: by a return, or by the panic
  of an index out of range, after which nothing more is printed.
\<close>

definition processData :: "string \<Rightarrow> UDPAddr \<Rightarrow> effect list \<times> panic outcome" where
  "processData data remoteAddr =
     (if length data = 0 then ([], Returned)
      else
        (let trimmedData = TrimSpace data in
         if length trimmedData = 0 then ([], Returned)
         else
           (let printed =
                  [Println_stderr plus_line, Println_stdout trimmedData, Println_stderr plus_line];
                logData = Unmarshal trimmedData LogData_zero
            in case toNginxAccessLog logData of
                 Inl p \<Rightarrow> (printed, Panicked p)
               | Inr nginxAccessLog \<Rightarrow>
                   (printed @
                      [Println_stderr plus_line, Println_row nginxAccessLog, Println_stderr plus_line,
                       Println_stderr plus_line, Println_inserted, Println_stderr plus_line],
                    Returned))))"

subsection \<open>Sample payloads\<close>

text \<open>
  The sample of the comment above \<open>LogData\<close> in the source, the sample of section 6 of
  the specification, and a text that is not JSON.
\<close>

definition sample :: string where
  \<open>sample = ''{"date":1751372240.0,"remote_addr":"172.28.0.1","remote_user":"-","request":"GET /hyperfApi/demo/test HTTP/1.1","status":"200","body_bytes_sent":"154","http_referer":"-","http_user_agent":"PostmanRuntime-ApipostRuntime/1.1.0","request_time":"0.071","upstream_response_time":"0.071","request_length":"201","bytes_sent":"553","http_x_forwarded_for":"-","http_x_real_ip":"-","scheme":"http","http_host":"localhost","server_name":"localhost"}''\<close>

definition sample_members :: "token list" where
  "sample_members =
     [TString ''date'', Colon, TNumber ''1751372240.0'', Comma,
      TString ''remote_addr'', Colon, TString ''172.28.0.1'', Comma,
      TString ''remote_user'', Colon, TString ''-'', Comma,
      TString ''request'', Colon, TString ''GET /hyperfApi/demo/test HTTP/1.1'', Comma,
      TString ''status'', Colon, TString ''200'', Comma,
      TString ''body_bytes_sent'', Colon, TString ''154'', Comma,
      TString ''http_referer'', Colon, TString ''-'', Comma,
      TString ''http_user_agent'', Colon, TString ''PostmanRuntime-ApipostRuntime/1.1.0'', Comma,
      TString ''request_time'', Colon, TString ''0.071'', Comma,
      TString ''upstream_response_time'', Colon, TString ''0.071'', Comma,
      TString ''request_length'', Colon, TString ''201'', Comma,
      TString ''bytes_sent'', Colon, TString ''553'', Comma,
      TString ''http_x_forwarded_for'', Colon, TString ''-'', Comma,
      TString ''http_x_real_ip'', Colon, TString ''-'', Comma,
      TString ''scheme'', Colon, TString ''http'', Comma,
      TString ''http_host'', Colon, TString ''localhost'', Comma,
      TString ''server_name'', Colon, TString ''localhost'', RBrace]"

definition sample_row :: NginxAccessLog where
  "sample_row =
     \<lparr>TimeIso8601 = Format_Unix (Json_number ''1751372240.0'' Zero64),
      RemoteAddr' = ''172.28.0.1'', RemoteUser' = ''-'',
      Method = ''GET'', RequestUri = ''/hyperfApi/demo/test'', HttpVersion = ''HTTP/1.1'',
      Status' = 200, BodyBytesSent' = 154, HttpReferer' = ''-'',
      HttpUserAgent' = ''PostmanRuntime-ApipostRuntime/1.1.0'',
      RequestTime' = ParseFloat ''0.071'', UpstreamResponseTime' = ParseFloat ''0.071'',
      RequestLength' = 201, BytesSent' = 553, HttpXForwardedFor' = ''-'', HttpXRealIp' = ''-'',
      Scheme' = ''http'', HttpHost' = ''localhost'', ServerName' = ''localhost''\<rparr>"

definition spec_sample :: string where
  \<open>spec_sample = ''{"date":1751372240.0,"remote_addr":"172.28.0.1","remote_user":"-","request":"GET /path HTTP/1.1","status":"200","body_bytes_sent":"154","http_referer":"-","http_user_agent":"agent/1.0","request_time":"0.071","upstream_response_time":"0.071","request_length":"201","bytes_sent":"553","http_x_forwarded_for":"-","http_x_real_ip":"-","scheme":"http","http_host":"localhost","server_name":"localhost"}''\<close>

definition spec_sample_members :: "token list" where
  "spec_sample_members =
     [TString ''date'', Colon, TNumber ''1751372240.0'', Comma,
      TString ''remote_addr'', Colon, TString ''172.28.0.1'', Comma,
      TString ''remote_user'', Colon, TString ''-'', Comma,
      TString ''request'', Colon, TString ''GET /path HTTP/1.1'', Comma,
      TString ''status'', Colon, TString ''200'', Comma,
      TString ''body_bytes_sent'', Colon, TString ''154'', Comma,
      TString ''http_referer'', Colon, TString ''-'', Comma,
      TString ''http_user_agent'', Colon, TString ''agent/1.0'', Comma,
      TString ''request_time'', Colon, TString ''0.071'', Comma,
      TString ''upstream_response_time'', Colon, TString ''0.071'', Comma,
      TString ''request_length'', Colon, TString ''201'', Comma,
      TString ''bytes_sent'', Colon, TString ''553'', Comma,
      TString ''http_x_forwarded_for'', Colon, TString ''-'', Comma,
      TString ''http_x_real_ip'', Colon, TString ''-'', Comma,
      TString ''scheme'', Colon, TString ''http'', Comma,
      TString ''http_host'', Colon, TString ''localhost'', Comma,
      TString ''server_name'', Colon, TString ''localhost'', RBrace]"

definition spec_sample_row :: NginxAccessLog where
  "spec_sample_row =
     \<lparr>TimeIso8601 = Format_Unix (Json_number ''1751372240.0'' Zero64),
      RemoteAddr' = ''172.28.0.1'', RemoteUser' = ''-'',
      Method = ''GET'', RequestUri = ''/path'', HttpVersion = ''HTTP/1.1'',
      Status' = 200, BodyBytesSent' = 154, HttpReferer' = ''-'',
      HttpUserAgent' = ''agent/1.0'',
      RequestTime' = ParseFloat ''0.071'', UpstreamResponseTime' = ParseFloat ''0.071'',
      RequestLength' = 201, BytesSent' = 553, HttpXForwardedFor' = ''-'', HttpXRealIp' = ''-'',
      Scheme' = ''http'', HttpHost' = ''localhost'', ServerName' = ''localhost''\<rparr>"


section \<open>The worker pool\<close>

text \<open>
  \<open>WorkerPool\<close> is a buffered channel of tasks and a fixed number of goroutines that
  range over it. The goroutines, the producer that calls \<open>Submit\<close> and the caller of
  \<open>Close\<close> run concurrently; the model is an interleaving of atomic events on one pool
  state. A channel operation is atomic in Go (it runs under the channel's lock), and
  so is each event here.

  A task is a \<open>func()\<close>. A run of the pool takes a function that gives, for each
  task, how its call ends when it ends by a return or by a panic. The panic value is
  never \<open>nil\<close> (Go 1.21 turns \<open>panic(nil)\<close> into a \<open>*runtime.PanicNilError\<close>), so
  \<open>recover() != nil\<close> holds exactly after a panic. A task can also end its goroutine
  with \<open>runtime.Goexit\<close>; which tasks do so is left to the run, and the event for it
  can happen to any task that is inside its call. A task acts on the pool only through
  \<open>Submit\<close> and \<open>Close\<close>, which are events of their own.
\<close>

text \<open>
  What calling an operation in a state gives: it completes with a result, it panics in
  the calling goroutine, or it cannot proceed in this state (the goroutine blocks).
\<close>

datatype 'a call = Done 'a | Panics panic | Blocked

subsection \<open>Channels\<close>

record 't chan =
  cap :: nat
  buf :: "'t list"
  closed :: bool

text \<open>
  \<open>make(chan func(), n)\<close> panics for a negative size and for a buffer beyond the
  allocation limit of the run time. The elements are function values of 8 bytes, and on
  a 64-bit platform the limit for the buffer is \<open>2^48\<close> bytes less the 96 bytes of the
  channel header, which is room for \<open>maxChanSize\<close> elements. Below the limit the
  allocation can still fail on a machine without the memory, which ends the process; the
  model has the runs in which it succeeds.
\<close>

definition maxChanSize :: int where
  "maxChanSize = 35184372088820"

definition make_chan :: "int \<Rightarrow> panic + 't chan" where
  "make_chan n =
     (if n < 0 \<or> maxChanSize < n then Inl Makechan_size_out_of_range
      else Inr \<lparr>cap = nat n, buf = [], closed = False\<rparr>)"

text \<open>
  \<open>ch <- v\<close>: a send on a closed channel panics, whatever the buffer holds; otherwise
  the value goes to the end of the buffer when there is room, and the sender blocks when
  there is none. A goroutine that waits in a receive finds the buffer empty, and the
  run time hands the value to it directly: here the value passes through the buffer and
  the goroutine takes it with its next event. This is the same for a channel with a
  buffer. \<open>NewWorkerPool\<close> puts goroutines on a channel without one only for a worker
  count that is a multiple of \<open>2^62\<close>, where the product below wraps to zero.
\<close>

definition chan_send :: "'t \<Rightarrow> 't chan \<Rightarrow> 't chan call" where
  "chan_send v c =
     (if closed c then Panics Send_on_closed_channel
      else if length (buf c) < cap c then Done (c\<lparr>buf := buf c @ [v]\<rparr>)
      else Blocked)"

text \<open>
  \<open>v, ok := <-ch\<close>, as \<open>for task := range ch\<close> does it: the first value of the
  buffer; on an empty buffer the end of the loop when the channel is closed (\<open>None\<close>),
  and blocking when it is open.
\<close>

definition chan_recv :: "'t chan \<Rightarrow> ('t option \<times> 't chan) call" where
  "chan_recv c =
     (case buf c of
        v # vs \<Rightarrow> Done (Some v, c\<lparr>buf := vs\<rparr>)
      | [] \<Rightarrow> if closed c then Done (None, c) else Blocked)"

definition chan_close :: "'t chan \<Rightarrow> 't chan call" where
  "chan_close c = (if closed c then Panics Close_of_closed_channel else Done (c\<lparr>closed := True\<rparr>))"

subsection \<open>The pool state\<close>

text \<open>
  A worker goroutine is at the receive of its \<open>range\<close> loop, inside \<open>task()\<close>, or past
  the loop (its deferred \<open>wg.Done()\<close> has run). The caller of \<open>Close\<close> has not called it,
  waits in \<open>wg.Wait()\<close>, or has returned from it.
\<close>

datatype 't goroutine = Receiving | Running 't | Exited

datatype close_phase = Close_not_called | Close_waiting | Close_returned

text \<open>
  The first three fields are those of the Go struct (\<open>wg\<close> is the counter of the
  \<open>sync.WaitGroup\<close>). \<open>goroutines\<close> is the state of the worker with each id,
  \<open>logged\<close> the lines the workers wrote with \<open>log.Printf\<close> (worker id and panic
  value), \<open>closing\<close> the phase of the caller of \<open>Close\<close>. The last two fields are
  history: the tasks for which \<open>Submit\<close> returned \<open>true\<close>, and the tasks whose call
  has ended, by a return or by a recovered panic (a task cut short by
  \<open>runtime.Goexit\<close> is not among them).
\<close>

record ('t, 'v) WorkerPool =
  workers :: int
  taskQueue :: "'t chan"
  wg :: nat
  goroutines :: "'t goroutine list"
  logged :: "(nat \<times> 'v) list"
  closing :: close_phase
  accepted :: "'t list"
  finished :: "'t list"

text \<open>
  Go's \<open>int\<close> has 64 bits, and a product that leaves them wraps around: \<open>wrap64 x\<close> is
  the value of the 64-bit integer that holds \<open>x\<close> modulo \<open>2^64\<close>.
\<close>

definition wrap64 :: "int \<Rightarrow> int" where
  "wrap64 x = (x + 9223372036854775808) mod 18446744073709551616 - 9223372036854775808"

text \<open>
  \<open>NewWorkerPool\<close>: the channel has room for \<open>workers*100\<close> tasks, a product of
  64-bit integers; the loop adds one to the wait group and starts one goroutine for each
  id from 0 below \<open>workers\<close>, so none for a count that is not positive. A negative count
  whose product wraps to a size that \<open>make\<close> accepts gives a pool with a buffer and no
  worker.
\<close>

definition NewWorkerPool :: "int \<Rightarrow> panic + ('t, 'v) WorkerPool" where
  "NewWorkerPool n =
     (case make_chan (wrap64 (n * 100)) of
        Inl p \<Rightarrow> Inl p
      | Inr c \<Rightarrow>
          Inr \<lparr>workers = n, taskQueue = c, wg = nat n,
               goroutines = replicate (nat n) Receiving, logged = [],
               closing = Close_not_called, accepted = [], finished = []\<rparr>)"

subsection \<open>Submit\<close>

text \<open>
  \<open>Submit\<close> returns \<open>false\<close> for a \<open>nil\<close> task (\<open>None\<close>). Otherwise it is a
  \<open>select\<close> with the send as its only case and a \<open>default\<close>: the send is done when
  it can proceed, which includes the panic on a closed channel, and the default branch
  runs when the send would block.
\<close>

definition Submit :: "'t option \<Rightarrow> ('t, 'v) WorkerPool \<Rightarrow> (bool \<times> ('t, 'v) WorkerPool) call" where
  "Submit task wp =
     (case task of
        None \<Rightarrow> Done (False, wp)
      | Some t \<Rightarrow>
          (case chan_send t (taskQueue wp) of
             Done c \<Rightarrow> Done (True, wp\<lparr>taskQueue := c, accepted := accepted wp @ [t]\<rparr>)
           | Panics p \<Rightarrow> Panics p
           | Blocked \<Rightarrow> Done (False, wp)))"

subsection \<open>The worker goroutine\<close>

text \<open>
  One turn of \<open>for task := range wp.taskQueue\<close> in the worker with id \<open>i\<close>: it takes
  the next task, or leaves the loop on a closed and empty channel and runs the deferred
  \<open>wp.wg.Done()\<close>.
\<close>

definition worker_receive :: "nat \<Rightarrow> ('t, 'v) WorkerPool \<Rightarrow> ('t, 'v) WorkerPool call" where
  "worker_receive i wp =
     (if i < length (goroutines wp) \<and> goroutines wp ! i = Receiving then
        (case chan_recv (taskQueue wp) of
           Done (Some t, c) \<Rightarrow> Done (wp\<lparr>taskQueue := c, goroutines := (goroutines wp)[i := Running t]\<rparr>)
         | Done (None, c) \<Rightarrow> Done (wp\<lparr>goroutines := (goroutines wp)[i := Exited], wg := wg wp - 1\<rparr>)
         | Panics p \<Rightarrow> Panics p
         | Blocked \<Rightarrow> Blocked)
      else Blocked)"

text \<open>
  The end of \<open>task()\<close> inside the function literal of the loop body: after a return
  the deferred function finds \<open>recover() == nil\<close> and does nothing; after a panic it
  logs the worker's id and the panic value, and the panic stops there. In both cases
  the loop goes on to the next receive.
\<close>

definition worker_finish ::
  "('t \<Rightarrow> 'v outcome) \<Rightarrow> nat \<Rightarrow> ('t, 'v) WorkerPool \<Rightarrow> ('t, 'v) WorkerPool call" where
  "worker_finish run i wp =
     (if i < length (goroutines wp) then
        (case goroutines wp ! i of
           Running t \<Rightarrow>
             (case run t of
                Returned \<Rightarrow>
                  Done (wp\<lparr>goroutines := (goroutines wp)[i := Receiving],
                            finished := finished wp @ [t]\<rparr>)
              | Panicked r \<Rightarrow>
                  Done (wp\<lparr>goroutines := (goroutines wp)[i := Receiving],
                            logged := logged wp @ [(i, r)],
                            finished := finished wp @ [t]\<rparr>))
         | _ \<Rightarrow> Blocked)
      else Blocked)"

text \<open>
  A task that calls \<open>runtime.Goexit\<close> ends its goroutine: the deferred function of the
  loop body finds \<open>recover() == nil\<close> and logs nothing, the deferred \<open>wp.wg.Done()\<close> of
  \<open>worker\<close> runs, and the worker is gone, whether or not the channel is closed and
  whatever the queue still holds.
\<close>

definition worker_goexit :: "nat \<Rightarrow> ('t, 'v) WorkerPool \<Rightarrow> ('t, 'v) WorkerPool call" where
  "worker_goexit i wp =
     (if i < length (goroutines wp) then
        (case goroutines wp ! i of
           Running t \<Rightarrow> Done (wp\<lparr>goroutines := (goroutines wp)[i := Exited], wg := wg wp - 1\<rparr>)
         | _ \<Rightarrow> Blocked)
      else Blocked)"

subsection \<open>Close\<close>

text \<open>
  \<open>Close\<close> is \<open>close(wp.taskQueue)\<close> and then \<open>wp.wg.Wait()\<close>, which returns when
  the counter is zero.
\<close>

definition Close_close :: "('t, 'v) WorkerPool \<Rightarrow> ('t, 'v) WorkerPool call" where
  "Close_close wp =
     (case chan_close (taskQueue wp) of
        Done c \<Rightarrow> Done (wp\<lparr>taskQueue := c, closing := Close_waiting\<rparr>)
      | Panics p \<Rightarrow> Panics p
      | Blocked \<Rightarrow> Blocked)"

definition Close_Wait :: "('t, 'v) WorkerPool \<Rightarrow> ('t, 'v) WorkerPool call" where
  "Close_Wait wp =
     (if closing wp = Close_waiting \<and> wg wp = 0 then Done (wp\<lparr>closing := Close_returned\<rparr>)
      else Blocked)"

subsection \<open>Runs of the pool\<close>

datatype 't event =
    Call_Submit "'t option"
  | Worker_receive nat
  | Worker_finish nat
  | Worker_goexit nat
  | Call_Close
  | Return_Close

definition fire ::
  "('t \<Rightarrow> 'v outcome) \<Rightarrow> 't event \<Rightarrow> ('t, 'v) WorkerPool \<Rightarrow> ('t, 'v) WorkerPool call" where
  "fire run e wp =
     (case e of
        Call_Submit task \<Rightarrow>
          (case Submit task wp of Done (ok, wp') \<Rightarrow> Done wp' | Panics p \<Rightarrow> Panics p | Blocked \<Rightarrow> Blocked)
      | Worker_receive i \<Rightarrow> worker_receive i wp
      | Worker_finish i \<Rightarrow> worker_finish run i wp
      | Worker_goexit i \<Rightarrow> worker_goexit i wp
      | Call_Close \<Rightarrow> Close_close wp
      | Return_Close \<Rightarrow> Close_Wait wp)"

text \<open>A run is a list of events, each fired in the state the one before it left.\<close>

fun fire_all ::
  "('t \<Rightarrow> 'v outcome) \<Rightarrow> 't event list \<Rightarrow> ('t, 'v) WorkerPool \<Rightarrow> ('t, 'v) WorkerPool call" where
  "fire_all run [] wp = Done wp"
| "fire_all run (e # es) wp =
     (case fire run e wp of
        Done wp' \<Rightarrow> fire_all run es wp'
      | Panics p \<Rightarrow> Panics p
      | Blocked \<Rightarrow> Blocked)"

text \<open>The tasks that are inside their call.\<close>

fun running :: "'t goroutine list \<Rightarrow> 't list" where
  "running [] = []"
| "running (Running t # gs) = t # running gs"
| "running (g # gs) = running gs"

subsection \<open>The invariant of the pool\<close>

text \<open>
  What holds in every state that a run reaches from a new pool, whatever the worker
  count and whatever the tasks do: the buffer is within its capacity, and the channel is
  closed exactly when \<open>Close\<close> has been called.
\<close>

definition pool_ok :: "('t, 'v) WorkerPool \<Rightarrow> bool" where
  "pool_ok wp =
     (length (buf (taskQueue wp)) \<le> cap (taskQueue wp) \<and>
      closed (taskQueue wp) = (closing wp \<noteq> Close_not_called))"

text \<open>A run in which no task calls \<open>runtime.Goexit\<close>.\<close>

fun no_goexit :: "'t event list \<Rightarrow> bool" where
  "no_goexit [] = True"
| "no_goexit (Worker_goexit i # es) = False"
| "no_goexit (e # es) = no_goexit es"

text \<open>
  What holds besides when the worker count is not negative and no task ends its
  goroutine with \<open>runtime.Goexit\<close>: a pool without workers has a channel without
  buffer; the wait-group counter is the number of goroutines still in their loop; a
  goroutine has left its loop only on a closed and empty channel; \<open>Close\<close> has returned
  only on a counter of zero; and every accepted task is finished, in the buffer or
  inside its call, once each.
\<close>


definition alive :: "'t goroutine list \<Rightarrow> nat" where
  "alive gs = length (filter (\<lambda>g. g \<noteq> Exited) gs)"

definition pool_inv :: "('t, 'v) WorkerPool \<Rightarrow> bool" where
  "pool_inv wp =
     (length (buf (taskQueue wp)) \<le> cap (taskQueue wp) \<and>
      (goroutines wp = [] \<longrightarrow> cap (taskQueue wp) = 0) \<and>
      wg wp = alive (goroutines wp) \<and>
      (Exited \<in> set (goroutines wp) \<longrightarrow> closed (taskQueue wp) \<and> buf (taskQueue wp) = []) \<and>
      closed (taskQueue wp) = (closing wp \<noteq> Close_not_called) \<and>
      (closing wp = Close_returned \<longrightarrow> wg wp = 0) \<and>
      mset (accepted wp) =
        mset (finished wp) + mset (buf (taskQueue wp)) + mset (running (goroutines wp)))"

subsection \<open>A worker serving the queue, and sample pools\<close>

text \<open>The events of worker \<open>i\<close> taking and running \<open>k\<close> tasks one after the other.\<close>

fun serve :: "nat \<Rightarrow> nat \<Rightarrow> 't event list" where
  "serve i 0 = []"
| "serve i (Suc k) = Worker_receive i # Worker_finish i # serve i k"

text \<open>The lines worker \<open>i\<close> logs for a list of tasks: one for each task that panics.\<close>

definition panic_lines :: "('t \<Rightarrow> 'v outcome) \<Rightarrow> nat \<Rightarrow> 't list \<Rightarrow> (nat \<times> 'v) list" where
  "panic_lines run i ts =
     List.map_filter (\<lambda>t. case run t of Returned \<Rightarrow> None | Panicked r \<Rightarrow> Some (i, r)) ts"

text \<open>
  Sample pools whose tasks are numbers, of which task 2 panics: the pools that
  \<open>NewWorkerPool\<close> gives for one worker, for none and for a negative count whose
  product wraps, and later states of them.
\<close>

definition demo_run :: "nat \<Rightarrow> string outcome" where
  "demo_run t = (if t = 2 then Panicked ''boom'' else Returned)"

definition demo_pool :: "(nat, string) WorkerPool" where
  "demo_pool =
     \<lparr>workers = 1, taskQueue = \<lparr>cap = 100, buf = [], closed = False\<rparr>, wg = 1,
      goroutines = [Receiving], logged = [], closing = Close_not_called,
      accepted = [], finished = []\<rparr>"

definition empty_pool :: "(nat, string) WorkerPool" where
  "empty_pool =
     \<lparr>workers = 0, taskQueue = \<lparr>cap = 0, buf = [], closed = False\<rparr>, wg = 0,
      goroutines = [], logged = [], closing = Close_not_called,
      accepted = [], finished = []\<rparr>"

definition demo_events :: "nat event list" where
  "demo_events =
     [Call_Submit (Some 1), Call_Submit (Some 2), Call_Submit None, Worker_receive 0, Call_Close,
      Worker_finish 0, Worker_receive 0, Worker_finish 0, Worker_receive 0, Return_Close]"

definition demo_final :: "(nat, string) WorkerPool" where
  "demo_final =
     \<lparr>workers = 1, taskQueue = \<lparr>cap = 100, buf = [], closed = True\<rparr>, wg = 0,
      goroutines = [Exited], logged = [(0, ''boom'')], closing = Close_returned,
      accepted = [1, 2], finished = [1, 2]\<rparr>"

definition demo_closed :: "(nat, string) WorkerPool" where
  "demo_closed =
     \<lparr>workers = 1, taskQueue = \<lparr>cap = 100, buf = [], closed = True\<rparr>, wg = 1,
      goroutines = [Receiving], logged = [], closing = Close_waiting,
      accepted = [], finished = []\<rparr>"

definition demo_later :: "(nat, string) WorkerPool" where
  "demo_later =
     \<lparr>workers = 1, taskQueue = \<lparr>cap = 100, buf = [], closed = True\<rparr>, wg = 1,
      goroutines = [Running 1], logged = [], closing = Close_waiting,
      accepted = [1], finished = []\<rparr>"

definition goexit_final :: "(nat, string) WorkerPool" where
  "goexit_final =
     \<lparr>workers = 1, taskQueue = \<lparr>cap = 100, buf = [3], closed = True\<rparr>, wg = 0,
      goroutines = [Exited], logged = [], closing = Close_returned,
      accepted = [1, 3], finished = []\<rparr>"

definition wrapped_pool :: "(nat, string) WorkerPool" where
  "wrapped_pool =
     \<lparr>workers = - 184467440737095516, taskQueue = \<lparr>cap = 16, buf = [], closed = False\<rparr>,
      wg = 0, goroutines = [], logged = [], closing = Close_not_called,
      accepted = [], finished = []\<rparr>"

definition wrapped_final :: "(nat, string) WorkerPool" where
  "wrapped_final =
     \<lparr>workers = - 184467440737095516, taskQueue = \<lparr>cap = 16, buf = [1], closed = True\<rparr>,
      wg = 0, goroutines = [], logged = [], closing = Close_returned,
      accepted = [1], finished = []\<rparr>"

definition demo_queued :: "(nat, string) WorkerPool" where
  "demo_queued =
     \<lparr>workers = 1, taskQueue = \<lparr>cap = 100, buf = [1, 2, 3], closed = False\<rparr>, wg = 1,
      goroutines = [Receiving], logged = [], closing = Close_not_called,
      accepted = [1, 2, 3], finished = []\<rparr>"

section \<open>The datagram receiver\<close>

text \<open>
  A task of the server is the function literal of \<open>startUDPServer\<close>, which calls
  \<open>processData(data, remoteAddr)\<close>; it is given by the two variables it captures. Its
  outcome for the pool is how \<open>processData\<close> ends.
\<close>

record task =
  data :: string
  remoteAddr :: UDPAddr

definition run_task :: "task \<Rightarrow> panic outcome" where
  "run_task t = snd (processData (data t) (remoteAddr t))"

text \<open>
  What \<open>conn.ReadFromUDP(buffer)\<close> returns: an error, or a datagram and its sender. The
  buffer has \<open>1024*60\<close> bytes, and a longer datagram is cut to it.
\<close>

datatype read = Read_failed string | Read_ok string UDPAddr

datatype server_log = Log_read_failed string | Log_pool_full UDPAddr

text \<open>
  One turn of the loop of \<open>startUDPServer\<close>, on the global pool: the new pool and the
  lines logged. There is no test of the data before \<open>Submit\<close>.
\<close>

definition receive ::
  "read \<Rightarrow> (task, panic) WorkerPool \<Rightarrow> ((task, panic) WorkerPool \<times> server_log list) call" where
  "receive rd wp =
     (case rd of
        Read_failed err \<Rightarrow> Done (wp, [Log_read_failed err])
      | Read_ok payload addr \<Rightarrow>
          (case Submit (Some \<lparr>data = take (1024 * 60) payload, remoteAddr = addr\<rparr>) wp of
             Done (ok, wp') \<Rightarrow> if ok then Done (wp', []) else Done (wp', [Log_pool_full addr])
           | Panics p \<Rightarrow> Panics p
           | Blocked \<Rightarrow> Blocked))"

text \<open>
  The pool of a server with one worker, before any datagram; a sender; and the tasks of
  a datagram of two spaces and of an empty datagram from it.
\<close>

definition sender :: UDPAddr where
  "sender = ''172.28.0.1:40000''"

definition blank_task :: task where
  "blank_task = \<lparr>data = ''  '', remoteAddr = sender\<rparr>"

definition empty_task :: task where
  "empty_task = \<lparr>data = [], remoteAddr = sender\<rparr>"

definition server_pool :: "(task, panic) WorkerPool" where
  "server_pool =
     \<lparr>workers = 1, taskQueue = \<lparr>cap = 100, buf = [], closed = False\<rparr>, wg = 1,
      goroutines = [Receiving], logged = [], closing = Close_not_called,
      accepted = [], finished = []\<rparr>"

section \<open>Properties of the conversion\<close>

subsection \<open>Split and Join\<close>

lemma Split_not_Nil: "Split s sep \<noteq> []"
  by (induction s) (auto split: list.splits)

lemma Join_Cons: "ps \<noteq> [] \<Longrightarrow> Join (p # ps) sep = p @ sep # Join ps sep"
  by (cases ps) auto


lemma length_Split: "length (Split s sep) = Suc (count_list s sep)"
  by (induction s) (auto split: list.splits simp: Split_not_Nil)

lemma Split_no_sep: "p \<in> set (Split s sep) \<Longrightarrow> sep \<notin> set p"
  by (induction s arbitrary: p) (auto split: list.splits if_splits)



subsection \<open>Atoi against the well-formed integer texts\<close>

lemma foldl_decimal: "foldl (\<lambda>n c. n * 10 + digit c) n ds = n * 10 ^ length ds + decimal ds"
  unfolding decimal_def
proof (induction ds arbitrary: n)
  case Nil
  show ?case by simp
next
  case (Cons c cs)
  show ?case
    using Cons [of "n * 10 + digit c"] Cons [of "digit c"]
    by (simp add: algebra_simps)
qed





lemma is_digit_not_sign: "is_digit c \<Longrightarrow> c \<noteq> CHR ''+'' \<and> c \<noteq> CHR ''-''"
  by (auto simp: is_digit_def)


lemma ParseUint_loop_None:
  "ParseUint_loop n ds = (v, None) \<Longrightarrow>
     list_all is_digit ds \<and> v = n * 10 ^ length ds + decimal ds \<and> (n \<le> maxUint64 \<longrightarrow> v \<le> maxUint64)"
proof (induction ds arbitrary: n)
  case Nil
  then show ?case by (simp add: decimal_def)
next
  case (Cons c cs)
  have dec: "decimal (c # cs) = digit c * 10 ^ length cs + decimal cs"
    using foldl_decimal [of "digit c" cs] by (simp add: decimal_def)
  from Cons.prems have d: "is_digit c" and n: "n < cutoff64" and s: "n * 10 + digit c \<le> maxUint64"
    and rec: "ParseUint_loop (n * 10 + digit c) cs = (v, None)"
    by (auto split: if_splits)
  from Cons.IH [OF rec] s d show ?case
    by (simp add: dec algebra_simps)
qed

lemma ParseUint_loop_Syntax: "ParseUint_loop n ds = (v, Some ErrSyntax) \<Longrightarrow> v = 0"
  by (induction ds arbitrary: n) (auto split: if_splits)

lemma ParseUint_loop_Range: "ParseUint_loop n ds = (v, Some ErrRange) \<Longrightarrow> v = maxUint64"
  by (induction ds arbitrary: n) (auto split: if_splits)

lemma Atoi_None_int_text:
  assumes "Atoi s = (v, None)"
  shows "int_text s \<and> v = int_value s"
proof (cases s)
  case Nil
  then show ?thesis using assms by (simp add: Atoi_def)
next
  case (Cons c cs)
  define neg where "neg = (c = CHR ''-'')"
  define ds where "ds = unsigned_part s"
  have p: "ParseInt_signed neg ds = (v, None)"
    using assms Cons by (auto simp: Atoi_def neg_def ds_def split: if_splits)
  obtain un err where pu: "ParseUint ds = (un, err)" by (cases "ParseUint ds")
  from p pu have e: "err \<noteq> Some ErrSyntax"
    and r: "\<not> (\<not> neg \<and> 9223372036854775808 \<le> un)" "\<not> (neg \<and> 9223372036854775808 < un)"
    and v: "v = (if neg then - int un else int un)"
    by (auto simp: ParseInt_signed_def split: if_splits)
  have "err = None"
  proof (rule ccontr)
    assume "err \<noteq> None"
    then have "err = Some ErrRange" using e by (cases err) (auto intro: NumError.exhaust)
    then have "un = maxUint64"
      using pu ParseUint_loop_Range [of 0 ds un] by (auto simp: ParseUint_def split: if_splits)
    then show False using r by (cases neg) (simp_all add: maxUint64_def)
  qed
  then have l: "ds \<noteq> []" "ParseUint_loop 0 ds = (un, None)"
    using pu by (auto simp: ParseUint_def split: if_splits)
  from ParseUint_loop_None [OF l(2)] have dg: "list_all is_digit ds" and un: "un = decimal ds"
    by simp_all
  have ng: "negative s = neg" using Cons by (simp add: neg_def)
  show ?thesis
    using l(1) dg un v r ng by (cases neg) (auto simp: int_text_def int_value_def ds_def [symmetric])
qed





subsection \<open>The request line\<close>

text \<open>
  With fewer than three pieces no row is built: the first index beyond the pieces
  panics. The empty request line of the zero record is such a line.
\<close>

lemma toNginxAccessLog_short:
  assumes "length (Split (Request r) (CHR '' '')) < 3"
  shows "toNginxAccessLog r =
           Inl (Index_out_of_range (length (Split (Request r) (CHR '' ''))) (length (Split (Request r) (CHR '' ''))))"
proof -
  have "length (Split (Request r) (CHR '' '')) = 1 \<or> length (Split (Request r) (CHR '' '')) = 2"
  proof -
    have "length (Split (Request r) (CHR '' '')) \<noteq> 0"
      using Split_not_Nil [of "Request r" "CHR '' ''"] by simp
    then show ?thesis using assms by linarith
  qed
  then show ?thesis
    by (auto simp: toNginxAccessLog_def index_def Let_def)
qed

lemma toNginxAccessLog_Inr:
  assumes "3 \<le> length (Split (Request r) (CHR '' ''))"
  shows "toNginxAccessLog r =
     Inr \<lparr>TimeIso8601 = Format_Unix (Date r),
          RemoteAddr' = RemoteAddr r,
          RemoteUser' = RemoteUser r,
          Method = Split (Request r) (CHR '' '') ! 0,
          RequestUri = Split (Request r) (CHR '' '') ! 1,
          HttpVersion = Split (Request r) (CHR '' '') ! 2,
          Status' = fst (Atoi (Status r)),
          BodyBytesSent' = fst (Atoi (BodyBytesSent r)),
          HttpReferer' = HttpReferer r,
          HttpUserAgent' = HttpUserAgent r,
          RequestTime' = ParseFloat (RequestTime r),
          UpstreamResponseTime' = ParseFloat (UpstreamResponseTime r),
          RequestLength' = fst (Atoi (RequestLength r)),
          BytesSent' = fst (Atoi (BytesSent r)),
          HttpXForwardedFor' = HttpXForwardedFor r,
          HttpXRealIp' = HttpXRealIp r,
          Scheme' = Scheme r,
          HttpHost' = HttpHost r,
          ServerName' = ServerName r\<rparr>"
  using assms by (simp add: toNginxAccessLog_def index_def Let_def Split_not_Nil)


lemma toNginxAccessLog_two_pieces:
  "toNginxAccessLog two_pieces = Inl (Index_out_of_range 2 2)"
  by (simp add: two_pieces_def LogData_zero_def toNginxAccessLog_def index_def)


text \<open>
  C1, as the code has it. The conversion has no failure result of its own. It splits
  the request line at every single space, keeping empty pieces; with three pieces or
  more it succeeds, takes the first three as method, URI and HTTP version and drops the
  others; and a row is built only when there are at least three pieces.
\<close>

theorem toNginxAccessLog_row_iff:
  "(3 \<le> length (Split (Request r) (CHR '' '')) \<longrightarrow>
      (\<exists>row. toNginxAccessLog r = Inr row \<and>
             Method row = Split (Request r) (CHR '' '') ! 0 \<and>
             RequestUri row = Split (Request r) (CHR '' '') ! 1 \<and>
             HttpVersion row = Split (Request r) (CHR '' '') ! 2)) \<and>
   ((\<exists>row. toNginxAccessLog r = Inr row) \<longrightarrow> 3 \<le> length (Split (Request r) (CHR '' '')))"
proof (cases "3 \<le> length (Split (Request r) (CHR '' ''))")
  case True
  then show ?thesis by (simp add: toNginxAccessLog_Inr)
next
  case False
  then have "length (Split (Request r) (CHR '' '')) < 3" by simp
  from toNginxAccessLog_short [OF this] False show ?thesis by simp
qed

theorem toNginxAccessLog_row_iff_witness:
  "3 \<le> length (Split (Request four_pieces) (CHR '' '')) \<and>
   (\<exists>row. toNginxAccessLog four_pieces = Inr row \<and>
          Method row = ''GET'' \<and> RequestUri row = ''/x'' \<and> HttpVersion row = ''HTTP/1.1'')"
  using toNginxAccessLog_row_iff [of four_pieces]
  by (simp add: four_pieces_def LogData_zero_def)


text \<open>
  C1 as stated fails: a request line of four pieces does not split into exactly three
  tokens, and its conversion does not fail; it yields a row.
\<close>

theorem four_pieces_counterexample:
  "length (Split (Request four_pieces) (CHR '' '')) = 4 \<and>
   toNginxAccessLog four_pieces =
     Inr \<lparr>TimeIso8601 = Format_Unix Zero64, RemoteAddr' = [], RemoteUser' = [],
          Method = ''GET'', RequestUri = ''/x'', HttpVersion = ''HTTP/1.1'',
          Status' = 0, BodyBytesSent' = 0, HttpReferer' = [], HttpUserAgent' = [],
          RequestTime' = ParseFloat [], UpstreamResponseTime' = ParseFloat [],
          RequestLength' = 0, BytesSent' = 0, HttpXForwardedFor' = [], HttpXRealIp' = [],
          Scheme' = [], HttpHost' = [], ServerName' = []\<rparr>"
  by (simp add: four_pieces_def LogData_zero_def toNginxAccessLog_def index_def Atoi_def)


subsection \<open>A well-formed record loses nothing\<close>




section \<open>Properties of the worker pool\<close>

subsection \<open>The invariant holds in every reachable state\<close>

lemma running_replicate: "running (replicate k Receiving) = []"
  by (induction k) auto

lemma alive_replicate: "alive (replicate k Receiving) = k"
  by (simp add: alive_def)

lemma NewWorkerPool_Inr:
  assumes "NewWorkerPool n = Inr wp"
  shows "wp = \<lparr>workers = n, taskQueue = \<lparr>cap = nat (wrap64 (n * 100)), buf = [], closed = False\<rparr>,
      wg = nat n, goroutines = replicate (nat n) Receiving, logged = [],
      closing = Close_not_called, accepted = [], finished = []\<rparr>"
  using assms by (auto simp: NewWorkerPool_def make_chan_def split: if_splits)

lemma pool_ok_New:
  assumes "NewWorkerPool n = Inr wp"
  shows "pool_ok wp"
  unfolding pool_ok_def NewWorkerPool_Inr [OF assms] by simp

lemma pool_inv_New:
  assumes "NewWorkerPool n = Inr wp" and "0 \<le> n"
  shows "pool_inv wp"
proof -
  have "nat n = 0 \<Longrightarrow> nat (wrap64 (n * 100)) = 0"
    using assms(2) by (simp add: wrap64_def)
  then show ?thesis
    unfolding pool_inv_def NewWorkerPool_Inr [OF assms(1)]
    by (simp add: running_replicate alive_replicate)
qed

lemma running_start:
  "i < length gs \<Longrightarrow> gs ! i = Receiving \<Longrightarrow>
     mset (running (gs[i := Running t])) = add_mset t (mset (running gs))"
proof (induction gs arbitrary: i)
  case Nil
  then show ?case by simp
next
  case (Cons g gs)
  show ?case
  proof (cases i)
    case 0
    then show ?thesis using Cons.prems by simp
  next
    case (Suc j)
    then show ?thesis using Cons by (cases g) auto
  qed
qed

lemma running_end:
  "i < length gs \<Longrightarrow> gs ! i = Running t \<Longrightarrow>
     mset (running gs) = add_mset t (mset (running (gs[i := Receiving])))"
proof (induction gs arbitrary: i)
  case Nil
  then show ?case by simp
next
  case (Cons g gs)
  show ?case
  proof (cases i)
    case 0
    then show ?thesis using Cons.prems by simp
  next
    case (Suc j)
    then show ?thesis using Cons by (cases g) auto
  qed
qed

lemma running_exit:
  "i < length gs \<Longrightarrow> gs ! i = Receiving \<Longrightarrow> running (gs[i := Exited]) = running gs"
proof (induction gs arbitrary: i)
  case Nil
  then show ?case by simp
next
  case (Cons g gs)
  show ?case
  proof (cases i)
    case 0
    then show ?thesis using Cons.prems by simp
  next
    case (Suc j)
    then show ?thesis using Cons by (cases g) auto
  qed
qed

lemma alive_update:
  "i < length gs \<Longrightarrow> gs ! i \<noteq> Exited \<Longrightarrow> g \<noteq> Exited \<Longrightarrow> alive (gs[i := g]) = alive gs"
proof (induction gs arbitrary: i)
  case Nil
  then show ?case by simp
next
  case (Cons h gs)
  show ?case
  proof (cases i)
    case 0
    then show ?thesis using Cons.prems by (simp add: alive_def)
  next
    case (Suc j)
    then show ?thesis using Cons by (simp add: alive_def)
  qed
qed

lemma alive_exit:
  "i < length gs \<Longrightarrow> gs ! i \<noteq> Exited \<Longrightarrow> alive (gs[i := Exited]) = alive gs - 1"
proof (induction gs arbitrary: i)
  case Nil
  then show ?case by simp
next
  case (Cons h gs)
  show ?case
  proof (cases i)
    case 0
    then show ?thesis using Cons.prems by (simp add: alive_def)
  next
    case (Suc j)
    have "alive gs > 0" if "gs ! j \<noteq> Exited" "j < length gs"
    proof -
      have "\<exists>x\<in>set gs. x \<noteq> Exited" using that nth_mem by blast
      then show ?thesis by (simp add: alive_def filter_empty_conv)
    qed
    then show ?thesis using Cons Suc by (auto simp: alive_def)
  qed
qed

lemma Exited_update:
  "g \<noteq> Exited \<Longrightarrow> Exited \<in> set (gs[i := g]) \<Longrightarrow> Exited \<in> set gs"
  by (metis in_set_conv_nth length_list_update nth_list_update_eq nth_list_update_neq)

lemma alive_0: "alive gs = 0 \<Longrightarrow> g \<in> set gs \<Longrightarrow> g = Exited"
  by (auto simp: alive_def filter_empty_conv)

lemma running_all_Exited: "\<forall>g \<in> set gs. g = Exited \<Longrightarrow> running gs = []"
  by (induction gs) auto


lemma pool_inv_Submit:
  assumes "pool_inv wp" "Submit task wp = Done (ok, wp')"
  shows "pool_inv wp'"
proof (cases task)
  case None
  then show ?thesis using assms by (simp add: Submit_def)
next
  case (Some t)
  show ?thesis
  proof (cases "chan_send t (taskQueue wp)")
    case (Done c)
    then have c: "c = (taskQueue wp)\<lparr>buf := buf (taskQueue wp) @ [t]\<rparr>"
      and o: "\<not> closed (taskQueue wp)" "length (buf (taskQueue wp)) < cap (taskQueue wp)"
      by (auto simp: chan_send_def split: if_splits)
    have wp': "wp' = wp\<lparr>taskQueue := c, accepted := accepted wp @ [t]\<rparr>"
      using assms(2) Some Done by (simp add: Submit_def)
    show ?thesis using assms(1) o unfolding pool_inv_def wp' c by auto
  next
    case (Panics p)
    then show ?thesis using assms Some by (simp add: Submit_def)
  next
    case Blocked
    then show ?thesis using assms Some by (simp add: Submit_def)
  qed
qed

lemma pool_inv_worker_receive:
  assumes "pool_inv wp" "worker_receive i wp = Done wp'"
  shows "pool_inv wp'"
proof -
  from assms(2) have i: "i < length (goroutines wp)" "goroutines wp ! i = Receiving"
    by (auto simp: worker_receive_def split: if_splits)
  show ?thesis
  proof (cases "buf (taskQueue wp)")
    case Nil
    then have cl: "closed (taskQueue wp)"
      and wp': "wp' = wp\<lparr>goroutines := (goroutines wp)[i := Exited], wg := wg wp - 1\<rparr>"
      using assms(2) i by (auto simp: worker_receive_def chan_recv_def split: if_splits)
    have "Exited \<in> set ((goroutines wp)[i := Exited])"
      using i(1) by (simp add: set_update_memI)
    then show ?thesis
      using assms(1) i Nil cl unfolding pool_inv_def wp'
      by (auto simp: alive_exit running_exit)
  next
    case (Cons t ts)
    then have wp': "wp' = wp\<lparr>taskQueue := (taskQueue wp)\<lparr>buf := ts\<rparr>,
                               goroutines := (goroutines wp)[i := Running t]\<rparr>"
      using assms(2) i by (auto simp: worker_receive_def chan_recv_def)
    have ne: "Exited \<notin> set (goroutines wp)"
      using assms(1) Cons by (auto simp: pool_inv_def)
    then have ne': "Exited \<notin> set ((goroutines wp)[i := Running t])"
      using Exited_update [of "Running t" "goroutines wp" i] by auto
    show ?thesis
      using assms(1) i Cons ne ne' unfolding pool_inv_def wp'
      by (auto simp: alive_update running_start)
  qed
qed

lemma pool_inv_worker_finish:
  assumes "pool_inv wp" "worker_finish run i wp = Done wp'"
  shows "pool_inv wp'"
proof -
  from assms(2) obtain t where i: "i < length (goroutines wp)" "goroutines wp ! i = Running t"
    by (auto simp: worker_finish_def split: if_splits goroutine.splits)
  have gs: "goroutines wp' = (goroutines wp)[i := Receiving]"
    and fin: "finished wp' = finished wp @ [t]"
    and same: "taskQueue wp' = taskQueue wp" "wg wp' = wg wp" "closing wp' = closing wp"
      "accepted wp' = accepted wp"
    using assms(2) i by (auto simp: worker_finish_def split: outcome.splits)
  have ex: "Exited \<in> set ((goroutines wp)[i := Receiving]) \<Longrightarrow> Exited \<in> set (goroutines wp)"
    using Exited_update [of Receiving "goroutines wp" i] by simp
  show ?thesis
    using assms(1) i ex running_end [OF i]
    unfolding pool_inv_def gs fin same
    by (auto simp: alive_update)
qed

lemma pool_inv_Close_close:
  assumes "pool_inv wp" "Close_close wp = Done wp'"
  shows "pool_inv wp'"
proof -
  from assms(2) have o: "\<not> closed (taskQueue wp)"
    and wp': "wp' = wp\<lparr>taskQueue := (taskQueue wp)\<lparr>closed := True\<rparr>, closing := Close_waiting\<rparr>"
    by (auto simp: Close_close_def chan_close_def split: if_splits)
  show ?thesis using assms(1) o unfolding pool_inv_def wp' by auto
qed

lemma pool_inv_Close_Wait:
  assumes "pool_inv wp" "Close_Wait wp = Done wp'"
  shows "pool_inv wp'"
proof -
  from assms(2) have o: "closing wp = Close_waiting" "wg wp = 0"
    and wp': "wp' = wp\<lparr>closing := Close_returned\<rparr>"
    by (auto simp: Close_Wait_def split: if_splits)
  show ?thesis using assms(1) o unfolding pool_inv_def wp' by auto
qed

lemma pool_inv_fire:
  assumes "pool_inv wp" "fire run e wp = Done wp'" "no_goexit [e]"
  shows "pool_inv wp'"
proof (cases e)
  case (Call_Submit task)
  then obtain ok where "Submit task wp = Done (ok, wp')"
    using assms(2) by (auto simp: fire_def split: call.splits)
  then show ?thesis using assms(1) by (rule pool_inv_Submit [rotated])
next
  case (Worker_receive i)
  then show ?thesis using assms pool_inv_worker_receive by (simp add: fire_def)
next
  case (Worker_finish i)
  then show ?thesis using assms pool_inv_worker_finish by (simp add: fire_def)
next
  case (Worker_goexit i)
  then show ?thesis using assms(3) by simp
next
  case Call_Close
  then show ?thesis using assms pool_inv_Close_close by (simp add: fire_def)
next
  case Return_Close
  then show ?thesis using assms pool_inv_Close_Wait by (simp add: fire_def)
qed

lemma no_goexit_Cons: "no_goexit (e # es) = (no_goexit [e] \<and> no_goexit es)"
  by (cases e) simp_all

lemma pool_inv_fire_all:
  "pool_inv wp \<Longrightarrow> fire_all run es wp = Done wp' \<Longrightarrow> no_goexit es \<Longrightarrow> pool_inv wp'"
proof (induction es arbitrary: wp)
  case Nil
  then show ?case by simp
next
  case (Cons e es)
  from Cons.prems(3) have g: "no_goexit [e]" "no_goexit es"
    using no_goexit_Cons [of e es] by simp_all
  from Cons.prems(2) obtain wp1 where f: "fire run e wp = Done wp1" "fire_all run es wp1 = Done wp'"
    by (auto split: call.splits)
  have "pool_inv wp1" using Cons.prems(1) f(1) g(1) by (rule pool_inv_fire)
  then show ?case using f(2) g(2) by (rule Cons.IH)
qed

lemma pool_inv_reachable:
  assumes "NewWorkerPool n = Inr wp0" "0 \<le> n" "fire_all run es wp0 = Done wp" "no_goexit es"
  shows "pool_inv wp"
  using pool_inv_fire_all [OF pool_inv_New [OF assms(1,2)] assms(3,4)] .

text \<open>The two facts of \<open>pool_ok\<close> need no such condition.\<close>

lemma pool_ok_fire:
  assumes "pool_ok wp" "fire run e wp = Done wp'"
  shows "pool_ok wp'"
proof (cases e)
  case (Call_Submit task)
  then show ?thesis using assms
    by (auto simp: pool_ok_def fire_def Submit_def chan_send_def
        split: option.splits call.splits if_splits)
next
  case (Worker_receive i)
  then show ?thesis using assms
    by (auto simp: pool_ok_def fire_def worker_receive_def chan_recv_def
        split: list.splits if_splits)
next
  case (Worker_finish i)
  then show ?thesis using assms
    by (auto simp: pool_ok_def fire_def worker_finish_def
        split: goroutine.splits outcome.splits if_splits)
next
  case (Worker_goexit i)
  then show ?thesis using assms
    by (auto simp: pool_ok_def fire_def worker_goexit_def split: goroutine.splits if_splits)
next
  case Call_Close
  then show ?thesis using assms
    by (auto simp: pool_ok_def fire_def Close_close_def chan_close_def split: if_splits)
next
  case Return_Close
  then show ?thesis using assms
    by (auto simp: pool_ok_def fire_def Close_Wait_def split: if_splits)
qed

lemma pool_ok_fire_all:
  "pool_ok wp \<Longrightarrow> fire_all run es wp = Done wp' \<Longrightarrow> pool_ok wp'"
proof (induction es arbitrary: wp)
  case Nil
  then show ?case by simp
next
  case (Cons e es)
  then show ?case by (auto split: call.splits dest: pool_ok_fire)
qed

lemma pool_ok_reachable:
  assumes "NewWorkerPool n = Inr wp0" "fire_all run es wp0 = Done wp"
  shows "pool_ok wp"
  using pool_ok_fire_all [OF pool_ok_New [OF assms(1)] assms(2)] .

subsection \<open>Evaluating the sample pools\<close>

lemmas pool_eval =
  fire_def Submit_def chan_send_def chan_recv_def chan_close_def worker_receive_def
  worker_finish_def worker_goexit_def Close_close_def Close_Wait_def demo_run_def

lemma NewWorkerPool_demo: "NewWorkerPool 1 = Inr demo_pool"
  by (simp add: NewWorkerPool_def make_chan_def wrap64_def maxChanSize_def demo_pool_def)

lemma NewWorkerPool_empty: "NewWorkerPool 0 = Inr empty_pool"
  by (simp add: NewWorkerPool_def make_chan_def wrap64_def maxChanSize_def empty_pool_def)

lemma NewWorkerPool_wrapped: "NewWorkerPool (- 184467440737095516) = Inr wrapped_pool"
  by (simp add: NewWorkerPool_def make_chan_def wrap64_def maxChanSize_def wrapped_pool_def)

lemma demo_events_final: "fire_all demo_run demo_events demo_pool = Done demo_final"
  by (simp add: demo_events_def demo_pool_def demo_final_def pool_eval)

subsection \<open>Submit\<close>

lemma Submit_closed:
  "closed (taskQueue wp) \<Longrightarrow> Submit (Some t) wp = Panics Send_on_closed_channel"
  by (simp add: Submit_def chan_send_def)

lemma fire_closed:
  assumes "fire run e wp = Done wp'" "closed (taskQueue wp)"
  shows "closed (taskQueue wp')"
proof (cases e)
  case (Call_Submit task)
  then show ?thesis using assms
    by (auto simp: fire_def Submit_def chan_send_def split: option.splits call.splits if_splits)
next
  case (Worker_receive i)
  then show ?thesis using assms
    by (auto simp: fire_def worker_receive_def chan_recv_def split: list.splits if_splits)
next
  case (Worker_finish i)
  then show ?thesis using assms
    by (auto simp: fire_def worker_finish_def split: goroutine.splits outcome.splits if_splits)
next
  case (Worker_goexit i)
  then show ?thesis using assms
    by (auto simp: fire_def worker_goexit_def split: goroutine.splits if_splits)
next
  case Call_Close
  then show ?thesis using assms
    by (auto simp: fire_def Close_close_def chan_close_def split: if_splits)
next
  case Return_Close
  then show ?thesis using assms
    by (auto simp: fire_def Close_Wait_def split: if_splits)
qed

lemma fire_all_closed:
  "fire_all run es wp = Done wp' \<Longrightarrow> closed (taskQueue wp) \<Longrightarrow> closed (taskQueue wp')"
proof (induction es arbitrary: wp)
  case Nil
  then show ?case by simp
next
  case (Cons e es)
  then show ?case by (auto split: call.splits dest: fire_closed)
qed

lemma fire_all_append:
  "fire_all run (es @ fs) wp =
     (case fire_all run es wp of Done wp' \<Rightarrow> fire_all run fs wp' | Panics p \<Rightarrow> Panics p | Blocked \<Rightarrow> Blocked)"
  by (induction es arbitrary: wp) (auto split: call.splits)

lemma Call_Close_closes: "fire run Call_Close wp = Done wp' \<Longrightarrow> closed (taskQueue wp')"
  by (auto simp: fire_def Close_close_def chan_close_def split: if_splits)

text \<open>
  C10. In every state of a run in which \<open>Close\<close> has been called, whatever happened
  before and after the call, \<open>Submit\<close> with a task that is not \<open>nil\<close> panics in its
  caller with "send on closed channel"; it does not return \<open>false\<close>.
\<close>

theorem Submit_after_Close_panics:
  assumes "fire_all run (before @ Call_Close # after) wp0 = Done wp"
  shows "Submit (Some t) wp = Panics Send_on_closed_channel"
proof -
  from assms obtain wp1 wp2 where
    "fire_all run before wp0 = Done wp1" "fire run Call_Close wp1 = Done wp2"
    "fire_all run after wp2 = Done wp"
    by (auto simp: fire_all_append split: call.splits)
  then have "closed (taskQueue wp)"
    using Call_Close_closes fire_all_closed by blast
  then show ?thesis by (rule Submit_closed)
qed

theorem Submit_after_Close_panics_witness:
  "fire_all demo_run ([Call_Submit (Some 1)] @ Call_Close # [Worker_receive 0]) demo_pool = Done demo_later \<and>
   Submit (Some 5) demo_later = Panics Send_on_closed_channel"
proof -
  have r: "fire_all demo_run ([Call_Submit (Some 1)] @ Call_Close # [Worker_receive 0]) demo_pool = Done demo_later"
    by (simp add: demo_pool_def demo_later_def pool_eval)
  show ?thesis using Submit_after_Close_panics [OF r, of 5] r by simp
qed

text \<open>
  C2, as the code has it. \<open>Submit\<close> never blocks: it returns or panics at once. It
  returns \<open>false\<close> for a \<open>nil\<close> task. On a pool on which \<open>Close\<close> has not been called it
  returns \<open>false\<close> when the queue is full, and otherwise puts the task at the end of the
  queue and returns \<open>true\<close>.
\<close>

theorem Submit_on_open_pool:
  assumes "NewWorkerPool n = Inr wp0" and "fire_all run es wp0 = Done wp"
  shows "Submit task wp \<noteq> Blocked \<and>
         (task = None \<longrightarrow> Submit task wp = Done (False, wp)) \<and>
         (closing wp = Close_not_called \<longrightarrow>
            (\<forall>t. task = Some t \<longrightarrow>
               (if length (buf (taskQueue wp)) = cap (taskQueue wp)
                then Submit task wp = Done (False, wp)
                else Submit task wp =
                       Done (True, wp\<lparr>taskQueue := (taskQueue wp)\<lparr>buf := buf (taskQueue wp) @ [t]\<rparr>,
                                       accepted := accepted wp @ [t]\<rparr>))))"
proof -
  have inv: "pool_ok wp" using assms by (rule pool_ok_reachable)
  then have le: "length (buf (taskQueue wp)) \<le> cap (taskQueue wp)"
    and cl: "closed (taskQueue wp) = (closing wp \<noteq> Close_not_called)"
    by (simp_all add: pool_ok_def)
  show ?thesis
    using le cl by (auto simp: Submit_def chan_send_def split: option.splits)
qed

theorem Submit_on_open_pool_witness:
  "NewWorkerPool 1 = Inr demo_pool \<and> fire_all demo_run [] demo_pool = Done demo_pool \<and>
   closing demo_pool = Close_not_called \<and>
   Submit None demo_pool = Done (False, demo_pool) \<and>
   Submit (Some 5) demo_pool =
     Done (True, demo_pool\<lparr>taskQueue := \<lparr>cap = 100, buf = [5], closed = False\<rparr>, accepted := [5]\<rparr>) \<and>
   NewWorkerPool 0 = Inr empty_pool \<and> closing empty_pool = Close_not_called \<and>
   length (buf (taskQueue empty_pool)) = cap (taskQueue empty_pool) \<and>
   Submit (Some 5) empty_pool = Done (False, empty_pool)"
proof -
  have e1: "fire_all demo_run [] demo_pool = Done demo_pool"
    and e0: "fire_all demo_run [] empty_pool = Done empty_pool" by simp_all
  show ?thesis
    using Submit_on_open_pool [OF NewWorkerPool_demo e1, of None]
      Submit_on_open_pool [OF NewWorkerPool_demo e1, of "Some 5"]
      Submit_on_open_pool [OF NewWorkerPool_empty e0, of "Some 5"]
      NewWorkerPool_demo NewWorkerPool_empty
    by (simp add: demo_pool_def empty_pool_def)
qed

text \<open>
  C2 as stated fails: after \<open>Close\<close> has been called on a new pool, the task is not
  \<open>nil\<close> and the queue is not full, and \<open>Submit\<close> does not enqueue the task and return
  \<open>true\<close>; it panics.
\<close>

theorem Submit_closed_counterexample:
  "NewWorkerPool 1 = Inr demo_pool \<and>
   fire_all demo_run [Call_Close] demo_pool = Done demo_closed \<and>
   length (buf (taskQueue demo_closed)) < cap (taskQueue demo_closed) \<and>
   Submit (Some 5) demo_closed = Panics Send_on_closed_channel"
  by (simp add: NewWorkerPool_demo demo_pool_def demo_closed_def pool_eval)

subsection \<open>Close\<close>

text \<open>
  C3, as the code has it. In a pool made with a worker count that is not negative, and
  in a run in which every task ends by a return or by a panic (none calls
  \<open>runtime.Goexit\<close>): when \<open>Close\<close> has returned, whatever the interleaving of producers
  and workers, every task that \<open>Submit\<close> accepted has finished its call (by a return or
  by a recovered panic) exactly as often as it was accepted; the queue is empty, no task
  is inside its call, every worker has left its loop, and no call of \<open>Submit\<close> accepts a
  task any more.
\<close>

theorem Close_returns_after_all_finished:
  assumes "NewWorkerPool n = Inr wp0" and "0 \<le> n"
    and "fire_all run es wp0 = Done wp" and "no_goexit es"
    and "closing wp = Close_returned"
  shows "mset (finished wp) = mset (accepted wp) \<and>
         buf (taskQueue wp) = [] \<and> running (goroutines wp) = [] \<and>
         (\<forall>g \<in> set (goroutines wp). g = Exited) \<and>
         (\<forall>task wp'. Submit task wp \<noteq> Done (True, wp'))"
proof -
  have inv: "pool_inv wp" using assms(1-4) by (rule pool_inv_reachable)
  then have z: "alive (goroutines wp) = 0" and cl: "closed (taskQueue wp)"
    using assms(5) by (auto simp: pool_inv_def)
  have ex: "\<forall>g \<in> set (goroutines wp). g = Exited" using alive_0 [OF z] by blast
  then have r: "running (goroutines wp) = []" by (rule running_all_Exited)
  have b: "buf (taskQueue wp) = []"
  proof (cases "goroutines wp")
    case Nil
    then show ?thesis using inv by (auto simp: pool_inv_def)
  next
    case (Cons g gs)
    then have "Exited \<in> set (goroutines wp)" using ex by auto
    then show ?thesis using inv by (simp add: pool_inv_def)
  qed
  have s: "\<forall>task wp'. Submit task wp \<noteq> Done (True, wp')"
    using cl by (auto simp: Submit_def chan_send_def split: option.splits)
  show ?thesis using inv r b ex s by (simp add: pool_inv_def)
qed

theorem Close_returns_after_all_finished_witness:
  "NewWorkerPool 1 = Inr demo_pool \<and> (0::int) \<le> 1 \<and>
   fire_all demo_run demo_events demo_pool = Done demo_final \<and>
   no_goexit demo_events \<and>
   closing demo_final = Close_returned \<and>
   mset (finished demo_final) = mset (accepted demo_final) \<and>
   accepted demo_final = [1, 2] \<and>
   buf (taskQueue demo_final) = [] \<and> running (goroutines demo_final) = []"
proof -
  have g: "no_goexit demo_events" by (simp add: demo_events_def)
  have c: "closing demo_final = Close_returned" by (simp add: demo_final_def)
  have p: "(0::int) \<le> 1" by simp
  show ?thesis
    using Close_returns_after_all_finished [OF NewWorkerPool_demo p demo_events_final g c]
      NewWorkerPool_demo demo_events_final g c
    by (simp add: demo_final_def)
qed

text \<open>
  C3 as stated fails. A task that calls \<open>runtime.Goexit\<close> takes its worker with it: the
  only worker of a pool takes the first of two accepted tasks, that task ends the
  goroutine, and \<open>Close\<close> returns with the second task still in the queue, never run.
  And a worker count of \<open>-184467440737095516\<close>, whose product with 100 wraps to 16, gives a
  pool that accepts tasks and has no worker: \<open>Close\<close> returns at once with the accepted
  task in the queue.
\<close>

theorem Close_loses_tasks_counterexample:
  "NewWorkerPool 1 = Inr demo_pool \<and>
   fire_all demo_run
     [Call_Submit (Some 1), Call_Submit (Some 3), Worker_receive 0, Worker_goexit 0,
      Call_Close, Return_Close] demo_pool = Done goexit_final \<and>
   closing goexit_final = Close_returned \<and> accepted goexit_final = [1, 3] \<and>
   finished goexit_final = [] \<and> buf (taskQueue goexit_final) = [3] \<and>
   NewWorkerPool (- 184467440737095516) = Inr wrapped_pool \<and>
   fire_all demo_run [Call_Submit (Some 1), Call_Close, Return_Close] wrapped_pool =
     Done wrapped_final \<and>
   closing wrapped_final = Close_returned \<and> accepted wrapped_final = [1] \<and>
   finished wrapped_final = [] \<and> buf (taskQueue wrapped_final) = [1]"
  by (simp add: NewWorkerPool_demo NewWorkerPool_wrapped demo_pool_def goexit_final_def
      wrapped_pool_def wrapped_final_def pool_eval)

subsection \<open>A panic stays inside its task\<close>

lemma panic_lines_Cons:
  "panic_lines run i (t # ts) =
     (case run t of Returned \<Rightarrow> [] | Panicked r \<Rightarrow> [(i, r)]) @ panic_lines run i ts"
  by (simp add: panic_lines_def List.map_filter_simps split: outcome.splits)

lemma serve_one:
  assumes "i < length (goroutines wp)" "goroutines wp ! i = Receiving"
    and "buf (taskQueue wp) = t # ts"
  shows "fire_all run [Worker_receive i, Worker_finish i] wp =
           Done (wp\<lparr>taskQueue := (taskQueue wp)\<lparr>buf := ts\<rparr>,
                     logged := logged wp @ (case run t of Returned \<Rightarrow> [] | Panicked r \<Rightarrow> [(i, r)]),
                     finished := finished wp @ [t]\<rparr>)"
  using assms
  by (cases "run t")
     (simp_all add: fire_def worker_receive_def worker_finish_def chan_recv_def list_update_same_conv)

text \<open>
  C4. A worker that is at its receive, with tasks in the queue, takes and runs them one
  after the other, whichever of them panic: all of them are run, in the order of the
  queue; for each one that panics, and for no other, a line with the worker's id and the
  panic value is logged; and afterwards the pool is as before in everything else: the
  worker is at its receive again, the other workers, the wait group and the channel are
  untouched, and the tasks behind are still in the queue.
\<close>

theorem worker_outlives_panics:
  assumes "i < length (goroutines wp)" and "goroutines wp ! i = Receiving"
    and "buf (taskQueue wp) = ts @ rest"
  shows "fire_all run (serve i (length ts)) wp =
           Done (wp\<lparr>taskQueue := (taskQueue wp)\<lparr>buf := rest\<rparr>,
                     logged := logged wp @ panic_lines run i ts,
                     finished := finished wp @ ts\<rparr>)"
  using assms
proof (induction ts arbitrary: wp)
  case Nil
  then show ?case by (simp add: panic_lines_def List.map_filter_simps)
next
  case (Cons t ts)
  let ?wp1 = "wp\<lparr>taskQueue := (taskQueue wp)\<lparr>buf := ts @ rest\<rparr>,
                     logged := logged wp @ (case run t of Returned \<Rightarrow> [] | Panicked r \<Rightarrow> [(i, r)]),
                     finished := finished wp @ [t]\<rparr>"
  have one: "fire_all run [Worker_receive i, Worker_finish i] wp = Done ?wp1"
    using serve_one [of i wp t "ts @ rest" run] Cons.prems by simp
  have rest: "fire_all run (serve i (length ts)) ?wp1 =
           Done (?wp1\<lparr>taskQueue := (taskQueue ?wp1)\<lparr>buf := rest\<rparr>,
                     logged := logged ?wp1 @ panic_lines run i ts,
                     finished := finished ?wp1 @ ts\<rparr>)"
    using Cons.prems by (intro Cons.IH) simp_all
  have "fire_all run (serve i (length (t # ts))) wp =
          fire_all run ([Worker_receive i, Worker_finish i] @ serve i (length ts)) wp"
    by simp
  also have "\<dots> = fire_all run (serve i (length ts)) ?wp1"
    unfolding fire_all_append one by simp
  finally show ?case
    unfolding rest by (simp add: panic_lines_Cons)
qed

theorem worker_outlives_panics_witness:
  "0 < length (goroutines demo_queued) \<and> goroutines demo_queued ! 0 = Receiving \<and>
   buf (taskQueue demo_queued) = [1, 2, 3] @ [] \<and>
   demo_run 2 = Panicked ''boom'' \<and>
   fire_all demo_run (serve 0 (length [1, 2, 3 :: nat])) demo_queued =
     Done \<lparr>workers = 1, taskQueue = \<lparr>cap = 100, buf = [], closed = False\<rparr>, wg = 1,
           goroutines = [Receiving], logged = [(0, ''boom'')], closing = Close_not_called,
           accepted = [1, 2, 3], finished = [1, 2, 3]\<rparr>"
proof -
  have h: "0 < length (goroutines demo_queued)" "goroutines demo_queued ! 0 = Receiving"
    "buf (taskQueue demo_queued) = [1, 2, 3] @ []"
    by (simp_all add: demo_queued_def)
  show ?thesis
    using worker_outlives_panics [OF h, of demo_run] h
    by (simp add: demo_queued_def demo_run_def panic_lines_def List.map_filter_simps)
qed

section \<open>Properties of the decoding and of processData\<close>

subsection \<open>Evaluating the samples\<close>

lemmas json_eval =
  start_def emit_def is_space_def is_digit_def is_exp_def num_step_def
  num_final_def unquote.simps scalar_def is_key_def

lemmas store_eval = store_member_def store_string_def store_float_def

lemma space_prefix_ascii:
  assumes "(of_char c :: nat) < 128" "\<not> asciiSpace (of_char c)"
  shows "space_prefix (bytes_of (c # cs)) = 0"
proof (cases cs)
  case Nil
  then show ?thesis using assms by (simp add: bytes_of_def)
next
  case (Cons d ds)
  then show ?thesis using assms by (cases ds) (auto simp: bytes_of_def)
qed

lemma space_suffix_ascii:
  assumes "(of_char c :: nat) < 128" "\<not> asciiSpace (of_char c)"
  shows "space_suffix (bytes_of (c # cs)) = 0"
proof (cases cs)
  case Nil
  then show ?thesis using assms by (simp add: bytes_of_def)
next
  case (Cons d ds)
  then show ?thesis using assms by (cases ds) (auto simp: bytes_of_def)
qed

lemma TrimLeft_id: "space_prefix (bytes_of s) = 0 \<Longrightarrow> TrimLeft s = s"
  by (subst TrimLeft.simps) simp

lemma TrimRev_id: "space_suffix (bytes_of s) = 0 \<Longrightarrow> TrimRev s = s"
  by (subst TrimRev.simps) simp

lemma TrimSpace_ascii_ends:
  assumes "s \<noteq> []"
    and "(of_char (hd s) :: nat) < 128" "\<not> asciiSpace (of_char (hd s))"
    and "(of_char (last s) :: nat) < 128" "\<not> asciiSpace (of_char (last s))"
  shows "TrimSpace s = s"
proof -
  obtain c cs where s: "s = c # cs" using assms(1) by (cases s) auto
  have "space_prefix (bytes_of s) = 0"
    unfolding s using assms(2,3) s by (intro space_prefix_ascii) simp_all
  then have l: "TrimLeft s = s" by (rule TrimLeft_id)
  obtain d ds where r: "rev s = d # ds" using assms(1) by (cases "rev s") auto
  have "hd (rev s) = last s" by (simp add: hd_rev)
  then have d: "d = last s" using r by simp
  have "space_suffix (bytes_of (rev s)) = 0"
    unfolding r using assms(4,5) d by (intro space_suffix_ascii) simp_all
  then have "TrimRev (rev s) = rev s" by (rule TrimRev_id)
  then show ?thesis using l by (simp add: TrimSpace_def)
qed

lemma TrimSpace_sample: "TrimSpace sample = sample"
  by (rule TrimSpace_ascii_ends) (simp_all add: sample_def asciiSpace_def)

lemma TrimSpace_spec_sample: "TrimSpace spec_sample = spec_sample"
  by (rule TrimSpace_ascii_ends) (simp_all add: spec_sample_def asciiSpace_def)


lemma lex_sample: "lex Ready sample = Some (LBrace # sample_members)"
  by (simp add: sample_def sample_members_def json_eval)

lemma nested_sample: "nested Value [] (LBrace # sample_members)"
  by (simp add: sample_members_def scalar_def is_key_def)

lemma members_sample: "members 1 sample_members LogData_zero = LogData_sample"
  by (simp add: sample_members_def LogData_zero_def LogData_sample_def store_eval)

lemma checkValid_sample: "checkValid sample = Some (LBrace # sample_members)"
  unfolding checkValid_def lex_sample using nested_sample by (simp only: option.case if_True)

lemma Unmarshal_sample: "Unmarshal sample LogData_zero = LogData_sample"
  unfolding Unmarshal_def checkValid_sample using members_sample by simp

lemma toNginxAccessLog_sample: "toNginxAccessLog LogData_sample = Inr sample_row"
  by (simp add: LogData_sample_def sample_row_def toNginxAccessLog_def index_def Atoi_def
      ParseInt_signed_def ParseUint_def is_digit_def digit_def cutoff64_def maxUint64_def)


lemma processData_blank:
  "(processData d a = ([], Returned)) = (d = [] \<or> TrimSpace d = [])"
  by (auto simp: processData_def Let_def split: sum.splits)

lemma processData_sink: "sink_writes (fst (processData d a)) = []"
  by (auto simp: processData_def Let_def split: sum.splits)

lemma processData_row:
  assumes "d \<noteq> []" "TrimSpace d \<noteq> []"
    and "toNginxAccessLog (Unmarshal (TrimSpace d) LogData_zero) = Inr row"
  shows "processData d a =
           ([Println_stderr plus_line, Println_stdout (TrimSpace d), Println_stderr plus_line,
             Println_stderr plus_line, Println_row row, Println_stderr plus_line,
             Println_stderr plus_line, Println_inserted, Println_stderr plus_line], Returned)"
  using assms by (simp add: processData_def Let_def)



lemma processData_sample:
  "processData sample a =
           ([Println_stderr plus_line, Println_stdout sample, Println_stderr plus_line,
             Println_stderr plus_line, Println_row sample_row, Println_stderr plus_line,
             Println_stderr plus_line, Println_inserted, Println_stderr plus_line], Returned)"
proof -
  have ne: "sample \<noteq> []" by (simp add: sample_def)
  show ?thesis
    using processData_row [of sample sample_row a] ne
    by (simp add: TrimSpace_sample Unmarshal_sample toNginxAccessLog_sample)
qed


subsection \<open>What a bad payload and a bad number give\<close>






subsection \<open>The sink\<close>

text \<open>
  C9, as the code has it. \<open>processData\<close> never calls the sink: the one call that would,
  \<open>DB.Create\<close>, is commented out in the source. For every payload that is converted it
  prints the resulting row exactly once and returns. The sample payload of the source
  is converted to the row with method \<open>GET\<close>, URI \<open>/hyperfApi/demo/test\<close>, version
  \<open>HTTP/1.1\<close>, status 200, 154 body bytes and the request time that \<open>ParseFloat\<close> reads
  from \<open>0.071\<close>.
\<close>

theorem processData_never_writes:
  "sink_writes (fst (processData d a)) = [] \<and>
   (\<forall>row. d \<noteq> [] \<and> TrimSpace d \<noteq> [] \<and>
          toNginxAccessLog (Unmarshal (TrimSpace d) LogData_zero) = Inr row \<longrightarrow>
          printed_rows (fst (processData d a)) = [row] \<and> snd (processData d a) = Returned)"
  by (auto simp: processData_def Let_def split: sum.splits)

theorem processData_never_writes_witness:
  "sample \<noteq> [] \<and> TrimSpace sample \<noteq> [] \<and>
   toNginxAccessLog (Unmarshal (TrimSpace sample) LogData_zero) = Inr sample_row \<and>
   sink_writes (fst (processData sample sender)) = [] \<and>
   printed_rows (fst (processData sample sender)) = [sample_row] \<and>
   snd (processData sample sender) = Returned \<and>
   Method sample_row = ''GET'' \<and> RequestUri sample_row = ''/hyperfApi/demo/test'' \<and>
   HttpVersion sample_row = ''HTTP/1.1'' \<and> Status' sample_row = 200 \<and>
   BodyBytesSent' sample_row = 154 \<and> RequestTime' sample_row = ParseFloat ''0.071''"
proof -
  have ne: "sample \<noteq> []" by (simp add: sample_def)
  have c: "toNginxAccessLog (Unmarshal (TrimSpace sample) LogData_zero) = Inr sample_row"
    by (simp add: TrimSpace_sample Unmarshal_sample toNginxAccessLog_sample)
  have t: "TrimSpace sample \<noteq> []" using ne by (simp add: TrimSpace_sample)
  have f: "Method sample_row = ''GET'' \<and> RequestUri sample_row = ''/hyperfApi/demo/test'' \<and>
   HttpVersion sample_row = ''HTTP/1.1'' \<and> Status' sample_row = 200 \<and>
   BodyBytesSent' sample_row = 154 \<and> RequestTime' sample_row = ParseFloat ''0.071''"
    by (simp add: sample_row_def)
  show ?thesis
    using processData_never_writes [of sample sender] ne c t f by blast
qed

lemma lex_spec_sample: "lex Ready spec_sample = Some (LBrace # spec_sample_members)"
  by (simp add: spec_sample_def spec_sample_members_def json_eval)

lemma nested_spec_sample: "nested Value [] (LBrace # spec_sample_members)"
  by (simp add: spec_sample_members_def scalar_def is_key_def)

lemma Unmarshal_spec_sample:
  "toNginxAccessLog (Unmarshal spec_sample LogData_zero) = Inr spec_sample_row"
proof -
  have "checkValid spec_sample = Some (LBrace # spec_sample_members)"
    unfolding checkValid_def lex_spec_sample using nested_spec_sample
    by (simp only: option.case if_True)
  then have "Unmarshal spec_sample LogData_zero = members 1 spec_sample_members LogData_zero"
    by (simp add: Unmarshal_def)
  also have "toNginxAccessLog \<dots> = Inr spec_sample_row"
    by (simp add: spec_sample_members_def LogData_zero_def spec_sample_row_def store_eval
        toNginxAccessLog_def index_def Atoi_def
        ParseInt_signed_def ParseUint_def is_digit_def digit_def cutoff64_def maxUint64_def)
  finally show ?thesis .
qed

text \<open>
  C9 as stated fails. Processing the sample payload of section 6 of the specification
  makes no call to the sink, where the claim has exactly one; the row it builds and
  prints has the URI \<open>/path\<close>, which is the one of that payload.
\<close>

theorem spec_sample_counterexample:
  "sink_writes (fst (processData spec_sample sender)) = [] \<and>
   printed_rows (fst (processData spec_sample sender)) = [spec_sample_row] \<and>
   snd (processData spec_sample sender) = Returned \<and>
   RequestUri spec_sample_row = ''/path''"
proof -
  have ne: "spec_sample \<noteq> []" by (simp add: spec_sample_def)
  have "processData spec_sample sender =
           ([Println_stderr plus_line, Println_stdout spec_sample, Println_stderr plus_line,
             Println_stderr plus_line, Println_row spec_sample_row, Println_stderr plus_line,
             Println_stderr plus_line, Println_inserted, Println_stderr plus_line], Returned)"
    using processData_row [of spec_sample spec_sample_row sender] ne
    by (simp add: TrimSpace_spec_sample Unmarshal_spec_sample)
  then show ?thesis by (simp add: spec_sample_row_def)
qed

subsection \<open>The receiver submits every datagram\<close>

text \<open>
  C6, as the code has it. The receiver makes no test of the datagram: for every datagram
  read without error, an empty one and one of white space included, it submits a task,
  which on an open pool with room is put into the queue. The test is inside the task:
  the task returns at once, with nothing printed and nothing converted, exactly when the
  datagram is empty or is empty after trimming the surrounding white space.
\<close>

theorem receive_submits_every_datagram:
  "(\<not> closed (taskQueue wp) \<and> length (buf (taskQueue wp)) < cap (taskQueue wp) \<longrightarrow>
      receive (Read_ok payload addr) wp =
        Done (wp\<lparr>taskQueue := (taskQueue wp)
                    \<lparr>buf := buf (taskQueue wp) @ [\<lparr>data = take (1024 * 60) payload, remoteAddr = addr\<rparr>]\<rparr>,
                  accepted := accepted wp @ [\<lparr>data = take (1024 * 60) payload, remoteAddr = addr\<rparr>]\<rparr>,
              [])) \<and>
   (run_task t = Returned \<and> fst (processData (data t) (remoteAddr t)) = []) =
     (data t = [] \<or> TrimSpace (data t) = [])"
proof -
  have "(run_task t = Returned \<and> fst (processData (data t) (remoteAddr t)) = []) =
          (processData (data t) (remoteAddr t) = ([], Returned))"
    by (auto simp: run_task_def prod_eq_iff)
  then show ?thesis
    by (auto simp: processData_blank receive_def Submit_def chan_send_def)
qed

lemma TrimSpace_blank: "TrimSpace ''  '' = []"
  by (simp add: TrimSpace_def TrimLeft.simps TrimRev.simps bytes_of_def asciiSpace_def)

theorem receive_submits_every_datagram_witness:
  "\<not> closed (taskQueue server_pool) \<and>
   length (buf (taskQueue server_pool)) < cap (taskQueue server_pool) \<and>
   receive (Read_ok ''  '' sender) server_pool =
     Done (server_pool\<lparr>taskQueue := \<lparr>cap = 100, buf = [blank_task], closed = False\<rparr>,
                        accepted := [blank_task]\<rparr>, []) \<and>
   TrimSpace (data blank_task) = [] \<and>
   run_task blank_task = Returned \<and> fst (processData (data blank_task) (remoteAddr blank_task)) = []"
proof -
  have h: "\<not> closed (taskQueue server_pool) \<and>
           length (buf (taskQueue server_pool)) < cap (taskQueue server_pool)"
    by (simp add: server_pool_def)
  have t: "TrimSpace (data blank_task) = []" by (simp add: blank_task_def TrimSpace_blank)
  show ?thesis
    using receive_submits_every_datagram [of server_pool "''  ''" sender blank_task] h t
    by (simp add: server_pool_def blank_task_def)
qed

text \<open>
  C6 as stated fails: for an empty datagram a task is submitted, and accepted.
\<close>

theorem empty_datagram_counterexample:
  "receive (Read_ok [] sender) server_pool =
     Done (server_pool\<lparr>taskQueue := \<lparr>cap = 100, buf = [empty_task], closed = False\<rparr>,
                        accepted := [empty_task]\<rparr>, [])"
  by (simp add: receive_def Submit_def chan_send_def server_pool_def empty_task_def)


end
